theory Spec2Isabelle
  imports Main
begin

section \<open>JavaScript values used by the scraper\<close>

text \<open>
  The scraper (\<^verbatim>\<open>src/scraper.js\<close>, class \<^verbatim>\<open>MultiSiteScraper\<close>) handles strings that
  may be \<^verbatim>\<open>null\<close> or \<^verbatim>\<open>undefined\<close>. Such a value is a \<open>string option\<close>, with
  \<open>None\<close> for \<^verbatim>\<open>null\<close>/\<^verbatim>\<open>undefined\<close>. Strings are byte sequences (UTF-8); every
  pattern of the source only inspects ASCII characters.
\<close>

type_synonym jsstring = "string option"

text \<open>JavaScript truthiness of a string-or-null: \<^verbatim>\<open>null\<close> and \<^verbatim>\<open>""\<close> are falsy.\<close>

definition truthy :: "jsstring \<Rightarrow> bool" where
  "truthy v = (case v of None \<Rightarrow> False | Some s \<Rightarrow> s \<noteq> [])"

text \<open>\<^verbatim>\<open>a || b\<close>.\<close>

definition js_or :: "jsstring \<Rightarrow> jsstring \<Rightarrow> jsstring" where
  "js_or a b = (if truthy a then a else b)"

text \<open>\<^verbatim>\<open>s.startsWith(p)\<close>.\<close>

definition startsWith :: "string \<Rightarrow> string \<Rightarrow> bool" where
  "startsWith s p = (take (length p) s = p)"

text \<open>\<^verbatim>\<open>s.includes(p)\<close>: \<open>p\<close> occurs somewhere in \<open>s\<close>.\<close>

fun includes_str :: "string \<Rightarrow> string \<Rightarrow> bool" where
  "includes_str [] p = (p = [])"
| "includes_str (c # cs) p = (startsWith (c # cs) p \<or> includes_str cs p)"

text \<open>
  \<^verbatim>\<open>s.trim()\<close> removes the white space and the line terminators of JavaScript at both
  ends. In UTF-8 these are the bytes 09 to 0D and 20, and the sequences of U+00A0, U+1680,
  U+2000 to U+200A, U+2028, U+2029, U+202F, U+205F, U+3000 and U+FEFF.
\<close>

definition whiteSpace :: "string list" where
  "whiteSpace =
     [[CHR 0x09], [CHR 0x0A], [CHR 0x0B], [CHR 0x0C], [CHR 0x0D], [CHR 0x20],
      [CHR 0xC2, CHR 0xA0], [CHR 0xE1, CHR 0x9A, CHR 0x80],
      [CHR 0xE2, CHR 0x80, CHR 0x80], [CHR 0xE2, CHR 0x80, CHR 0x81],
      [CHR 0xE2, CHR 0x80, CHR 0x82], [CHR 0xE2, CHR 0x80, CHR 0x83],
      [CHR 0xE2, CHR 0x80, CHR 0x84], [CHR 0xE2, CHR 0x80, CHR 0x85],
      [CHR 0xE2, CHR 0x80, CHR 0x86], [CHR 0xE2, CHR 0x80, CHR 0x87],
      [CHR 0xE2, CHR 0x80, CHR 0x88], [CHR 0xE2, CHR 0x80, CHR 0x89],
      [CHR 0xE2, CHR 0x80, CHR 0x8A], [CHR 0xE2, CHR 0x80, CHR 0xA8],
      [CHR 0xE2, CHR 0x80, CHR 0xA9], [CHR 0xE2, CHR 0x80, CHR 0xAF],
      [CHR 0xE2, CHR 0x81, CHR 0x9F], [CHR 0xE3, CHR 0x80, CHR 0x80],
      [CHR 0xEF, CHR 0xBB, CHR 0xBF]]"

text \<open>The length of the sequence of the table that the string begins with, 0 if none.\<close>

fun spaceAtHead :: "string list \<Rightarrow> string \<Rightarrow> nat" where
  "spaceAtHead [] s = 0"
| "spaceAtHead (w # ws) s =
     (if w \<noteq> [] \<and> take (length w) s = w then length w else spaceAtHead ws s)"

fun dropSpaces :: "string list \<Rightarrow> string \<Rightarrow> string" where
  "dropSpaces ws [] = []"
| "dropSpaces ws (c # cs) =
     (let n = spaceAtHead ws (c # cs)
      in if n = 0 then c # cs else dropSpaces ws (drop (n - 1) cs))"

text \<open>At the end of the string the sequences are met in reverse.\<close>

definition trim :: "string \<Rightarrow> string" where
  "trim s = rev (dropSpaces (map rev whiteSpace) (rev (dropSpaces whiteSpace s)))"

subsection \<open>The two regular expressions of the product-code inference\<close>

text \<open>
  Both patterns carry the flag \<^verbatim>\<open>i\<close>. Under that flag the class \<^verbatim>\<open>[A-Z0-9]\<close> accepts
  the ASCII letters of both cases and the digits, and a letter of the pattern accepts
  both of its cases.
\<close>

definition isAlnum :: "char \<Rightarrow> bool" where
  "isAlnum c = (c \<in> set ''ABCDEFGHIJKLMNOPQRSTUVWXYZabcdefghijklmnopqrstuvwxyz0123456789'')"

definition canonicalize :: "char \<Rightarrow> char" where
  "canonicalize c =
     (case map_of (zip ''abcdefghijklmnopqrstuvwxyz'' ''ABCDEFGHIJKLMNOPQRSTUVWXYZ'') c of
        None \<Rightarrow> c | Some u \<Rightarrow> u)"

text \<open>
  The group \<^verbatim>\<open>([A-Z0-9]+)\<close> at the head of a string: the longest run of alphanumerics,
  which must not be empty. Nothing follows the group in either pattern, so the greedy
  \<^verbatim>\<open>+\<close> never gives a character back.
\<close>

definition alnumRun :: "string \<Rightarrow> jsstring" where
  "alnumRun s = (let g = takeWhile isAlnum s in if g = [] then None else Some g)"

text \<open>\<^verbatim>\<open>\/p([A-Z0-9]+)\<close> tried at the head of the string; the result is group 1.\<close>

fun slashP_here :: "string \<Rightarrow> jsstring" where
  "slashP_here (c # d # rest) =
     (if c = CHR ''/'' \<and> canonicalize d = CHR ''P'' then alnumRun rest else None)"
| "slashP_here _ = None"

text \<open>\<^verbatim>\<open>product[\/\-]([A-Z0-9]+)\<close> tried at the head of the string; the result is group 1.\<close>

definition product_here :: "string \<Rightarrow> jsstring" where
  "product_here s =
     (if map canonicalize (take 7 s) = ''PRODUCT''
         \<and> (take 1 (drop 7 s) = ''/'' \<or> take 1 (drop 7 s) = ''-'')
      then alnumRun (drop 8 s) else None)"

text \<open>
  \<^verbatim>\<open>String.prototype.match\<close> without the flag \<^verbatim>\<open>g\<close>: the pattern is tried at every
  start position from the left, and the first position where it matches decides.
\<close>

fun leftmost :: "(string \<Rightarrow> jsstring) \<Rightarrow> string \<Rightarrow> jsstring" where
  "leftmost m [] = m []"
| "leftmost m (c # cs) = (case m (c # cs) of Some g \<Rightarrow> Some g | None \<Rightarrow> leftmost m cs)"

text \<open>
  Lines 133--137: \<^verbatim>\<open>link.match(/\/p([A-Z0-9]+)/i) || link.match(/product[\/\-]([A-Z0-9]+)/i)\<close>,
  guarded by \<^verbatim>\<open>if (link)\<close>. A match object is truthy, a failed match is \<^verbatim>\<open>null\<close>.
\<close>

definition productCodeOf :: "jsstring \<Rightarrow> jsstring" where
  "productCodeOf link =
     (if truthy link then
        (case link of
           None \<Rightarrow> None
         | Some l \<Rightarrow>
            (case leftmost slashP_here l of
               Some g \<Rightarrow> Some g
             | None \<Rightarrow> leftmost product_here l))
      else None)"

section \<open>The page as the in-page code sees it\<close>

text \<open>
  A selector is an opaque string that the page interprets. An element therefore carries,
  besides its text content, its attributes and its \<^verbatim>\<open>src\<close> property, the table of its
  descendants that each selector matches, in document order. The \<^verbatim>\<open>src\<close> property is
  what \<^verbatim>\<open>img.src\<close> reads: the resolved URL of an image, the empty string for an image
  without source, \<^verbatim>\<open>undefined\<close> (\<open>None\<close>) for other elements.
\<close>

datatype element =
  Element (textContent: string) (attributes: "(string \<times> string) list")
          (srcProperty: jsstring) (matches: "(string \<times> element list) list")

definition querySelectorAll :: "element \<Rightarrow> string \<Rightarrow> element list" where
  "querySelectorAll scope selector =
     (case map_of (matches scope) selector of None \<Rightarrow> [] | Some es \<Rightarrow> es)"

definition querySelector :: "element \<Rightarrow> string \<Rightarrow> element option" where
  "querySelector scope selector =
     (case querySelectorAll scope selector of [] \<Rightarrow> None | el # _ \<Rightarrow> Some el)"

text \<open>\<^verbatim>\<open>el.getAttribute(attr)\<close>: \<^verbatim>\<open>null\<close> when the element has no such attribute.\<close>

definition attribute :: "element \<Rightarrow> string \<Rightarrow> jsstring" where
  "attribute el attr = map_of (attributes el) attr"

text \<open>
  The helpers \<^verbatim>\<open>getTextContent\<close> and \<^verbatim>\<open>getAttribute\<close> (lines 103--111 and 192--200):
  the scope is the card in \<^verbatim>\<open>search\<close> and the document in \<^verbatim>\<open>getProductDetails\<close>.
\<close>

definition getTextContent :: "element \<Rightarrow> string \<Rightarrow> jsstring" where
  "getTextContent scope selector =
     (case querySelector scope selector of
        None \<Rightarrow> None | Some el \<Rightarrow> Some (trim (textContent el)))"

definition getAttribute :: "element \<Rightarrow> string \<Rightarrow> string \<Rightarrow> jsstring" where
  "getAttribute scope selector attr =
     (case querySelector scope selector of
        None \<Rightarrow> None | Some el \<Rightarrow> attribute el attr)"

record selectorSet =
  sel_productCard :: string
  sel_title :: string
  sel_price :: string
  sel_image :: string
  sel_link :: string
  sel_brand :: jsstring
  sel_rating :: jsstring

record product =
  productCode :: jsstring
  title :: jsstring
  brand :: jsstring
  price :: jsstring
  rating :: jsstring
  image_url :: jsstring
  url :: jsstring

text \<open>
  Lines 116--120: the image is the \<^verbatim>\<open>src\<close> attribute, replaced by the \<^verbatim>\<open>data-src\<close>
  attribute \<^verbatim>\<open>if (!image || image.includes('data:image'))\<close>.
\<close>

definition imageOf :: "element \<Rightarrow> string \<Rightarrow> jsstring" where
  "imageOf cardEl selector =
     (let src = getAttribute cardEl selector ''src'' in
      if \<not> truthy src \<or> (case src of None \<Rightarrow> False | Some s \<Rightarrow> includes_str s ''data:image'')
      then getAttribute cardEl selector ''data-src''
      else src)"

text \<open>
  Lines 122--126: the link is the \<^verbatim>\<open>href\<close> attribute, prefixed with the origin of the
  page \<^verbatim>\<open>if (link && !link.startsWith('http'))\<close>.
\<close>

definition linkOf :: "string \<Rightarrow> element \<Rightarrow> string \<Rightarrow> jsstring" where
  "linkOf locationOrigin cardEl selector =
     (let link = getAttribute cardEl selector ''href'' in
      case link of
        None \<Rightarrow> None
      | Some l \<Rightarrow> if truthy link \<and> \<not> startsWith l ''http'' then Some (locationOrigin @ l) else link)"

text \<open>An optional selector: \<^verbatim>\<open>selectors.brand ? getTextContent(selectors.brand) : null\<close>.\<close>

definition optionalText :: "element \<Rightarrow> jsstring \<Rightarrow> jsstring" where
  "optionalText scope selector =
     (case selector of
        None \<Rightarrow> None
      | Some sel \<Rightarrow> if truthy selector then getTextContent scope sel else None)"

text \<open>The function mapped over the cards (lines 102--147).\<close>

definition extractCard :: "string \<Rightarrow> selectorSet \<Rightarrow> element \<Rightarrow> product" where
  "extractCard locationOrigin selectors cardEl =
     (let link = linkOf locationOrigin cardEl (sel_link selectors) in
      \<lparr> productCode = productCodeOf link,
        title = getTextContent cardEl (sel_title selectors),
        brand = optionalText cardEl (sel_brand selectors),
        price = getTextContent cardEl (sel_price selectors),
        rating = optionalText cardEl (sel_rating selectors),
        image_url = imageOf cardEl (sel_image selectors),
        url = link \<rparr>)"

text \<open>The filter of line 148: \<^verbatim>\<open>p => p.title && p.price\<close>.\<close>

definition qualifies :: "product \<Rightarrow> bool" where
  "qualifies p = (truthy (title p) \<and> truthy (price p))"

text \<open>The function run inside the page by \<^verbatim>\<open>browserPage.evaluate\<close> (lines 99--149).\<close>

definition extractProducts :: "string \<Rightarrow> element \<Rightarrow> selectorSet \<Rightarrow> product list" where
  "extractProducts locationOrigin document selectors =
     filter qualifies
       (map (extractCard locationOrigin selectors)
            (querySelectorAll document (sel_productCard selectors)))"

text \<open>
  \<^verbatim>\<open>getAllImages\<close> (lines 202--205):
  \<^verbatim>\<open>images.map(img => img.src || img.getAttribute('data-src')).filter(Boolean)\<close>.
\<close>

definition getAllImages :: "element \<Rightarrow> string \<Rightarrow> string list" where
  "getAllImages document selector =
     [s. Some s \<leftarrow> filter truthy
            (map (\<lambda>img. js_or (srcProperty img) (attribute img ''data-src''))
                 (querySelectorAll document selector))]"

section \<open>Building the cache key and the search URL\<close>

text \<open>A page number inside a template literal: its decimal digits.\<close>

fun showNat :: "nat \<Rightarrow> string" where
  "showNat n =
     (if n < 10 then [''0123456789'' ! n]
      else showNat (n div 10) @ [''0123456789'' ! (n mod 10)])"

declare showNat.simps [simp del]

record siteConfig =
  name :: string
  searchUrl :: string
  selectors :: selectorSet

text \<open>\<^verbatim>\<open>getCacheKey\<close> (lines 32--34): the template \<^verbatim>\<open>${siteConfig.name}:${query}:${page}\<close>.\<close>

definition getCacheKey :: "siteConfig \<Rightarrow> string \<Rightarrow> nat \<Rightarrow> string" where
  "getCacheKey cfg query page = name cfg @ '':'' @ query @ '':'' @ showNat page"

text \<open>
  \<^verbatim>\<open>encodeURIComponent\<close>: every byte outside the unreserved characters becomes
  \<^verbatim>\<open>%XX\<close> with upper-case hexadecimal digits.
\<close>

definition isUnreserved :: "char \<Rightarrow> bool" where
  "isUnreserved c = (isAlnum c \<or> c \<in> set [CHR ''-'', CHR ''_'', CHR ''.'', CHR ''!'', CHR ''~'',
                                          CHR ''*'', CHR 0x27, CHR ''('', CHR '')''])"

definition percentEncode :: "char \<Rightarrow> string" where
  "percentEncode c =
     [CHR ''%'', ''0123456789ABCDEF'' ! (of_char c div 16), ''0123456789ABCDEF'' ! (of_char c mod 16)]"

definition encodeURIComponent :: "string \<Rightarrow> string" where
  "encodeURIComponent s = concat (map (\<lambda>c. if isUnreserved c then [c] else percentEncode c) s)"

text \<open>
  \<^verbatim>\<open>template.replace(pattern, replacement)\<close> with a string pattern: the first occurrence
  only. The replacement is the output of \<^verbatim>\<open>encodeURIComponent\<close>, which holds no
  \<^verbatim>\<open>$\<close>, so no replacement pattern is expanded.
\<close>

fun replaceFirst :: "string \<Rightarrow> string \<Rightarrow> string \<Rightarrow> string" where
  "replaceFirst [] pat rep = (if pat = [] then rep else [])"
| "replaceFirst (c # cs) pat rep =
     (if startsWith (c # cs) pat then rep @ drop (length pat) (c # cs)
      else c # replaceFirst cs pat rep)"

section \<open>The scraper, its cache and the objects it hands out\<close>

text \<open>
  A \<^verbatim>\<open>SearchResult\<close> is a JavaScript object and its \<^verbatim>\<open>results\<close> an array: both live in
  a store and are known by their address, so that the model shows which references the
  cache and the callers hold. The products inside an array are kept as values.
\<close>

type_synonym addr = nat

record searchResult =
  site :: string
  query :: string
  page :: nat
  totalResults :: nat
  results :: addr
  cached :: bool
  timestamp :: string

text \<open>The entry written by \<^verbatim>\<open>setCache\<close>: \<^verbatim>\<open>{ data, timestamp: Date.now() }\<close>.\<close>

record cacheEntry =
  entry_data :: addr
  entry_timestamp :: int

record state =
  browser :: bool
  cache :: "string \<rightharpoonup> cacheEntry"
  objects :: "addr \<rightharpoonup> searchResult"
  arrays :: "addr \<rightharpoonup> product list"
  nextAddr :: addr
  openPages :: nat

text \<open>The constructor (lines 4--8): no browser, an empty cache.\<close>

definition newScraper :: state where
  "newScraper = \<lparr> browser = False, cache = Map.empty, objects = Map.empty,
                   arrays = Map.empty, nextAddr = 0, openPages = 0 \<rparr>"

text \<open>\<^verbatim>\<open>this.cacheTimeout = 60 * 60 * 1000\<close>, in milliseconds.\<close>

definition cacheTimeout :: int where
  "cacheTimeout = 60 * 60 * 1000"

definition allocObject :: "searchResult \<Rightarrow> state \<Rightarrow> addr \<times> state" where
  "allocObject r s = (nextAddr s, s\<lparr> objects := (objects s)(nextAddr s \<mapsto> r), nextAddr := nextAddr s + 1 \<rparr>)"

definition allocArray :: "product list \<Rightarrow> state \<Rightarrow> addr \<times> state" where
  "allocArray ps s = (nextAddr s, s\<lparr> arrays := (arrays s)(nextAddr s \<mapsto> ps), nextAddr := nextAddr s + 1 \<rparr>)"

text \<open>
  \<^verbatim>\<open>getFromCache\<close> (lines 36--43); \<open>now\<close> is the value of \<^verbatim>\<open>Date.now()\<close>. An entry is an
  object, hence truthy, so \<^verbatim>\<open>cached && ...\<close> tests its presence. Every path but the hit
  runs \<^verbatim>\<open>this.cache.delete(key)\<close>.
\<close>

definition getFromCache :: "string \<Rightarrow> int \<Rightarrow> state \<Rightarrow> addr option \<times> state" where
  "getFromCache key now s =
     (case cache s key of
        Some entry \<Rightarrow>
          if now - entry_timestamp entry < cacheTimeout then (Some (entry_data entry), s)
          else (None, s\<lparr> cache := (cache s)(key := None) \<rparr>)
      | None \<Rightarrow> (None, s\<lparr> cache := (cache s)(key := None) \<rparr>))"

text \<open>\<^verbatim>\<open>setCache\<close> (lines 45--50).\<close>

definition setCache :: "string \<Rightarrow> addr \<Rightarrow> int \<Rightarrow> state \<Rightarrow> state" where
  "setCache key data now s =
     s\<lparr> cache := (cache s)(key \<mapsto> \<lparr> entry_data = data, entry_timestamp = now \<rparr>) \<rparr>"

text \<open>\<^verbatim>\<open>clearCache\<close> (lines 52--54).\<close>

definition clearCache :: "state \<Rightarrow> state" where
  "clearCache s = s\<lparr> cache := Map.empty \<rparr>"

section \<open>The browser as the scraper drives it\<close>

text \<open>
  What one navigation does: \<^verbatim>\<open>goto\<close> rejects with a message or resolves;
  \<^verbatim>\<open>waitForSelector\<close> resolves when the document has an element for the selector and
  rejects with the driver's timeout message otherwise; \<^verbatim>\<open>evaluate\<close> rejects with a
  message or returns what the in-page function computes on the document. The document is
  the one the page has settled to: the wait and the evaluation see the same elements.
\<close>

record pageLoad =
  gotoFailure :: jsstring
  timeoutMessage :: string
  evaluateFailure :: jsstring
  locationOrigin :: string
  document :: element

text \<open>
  What a call of the scraper meets: whether \<^verbatim>\<open>puppeteer.launch\<close> and \<^verbatim>\<open>newPage\<close>
  reject, the page each URL loads, the two readings of \<^verbatim>\<open>Date.now()\<close> (in
  \<^verbatim>\<open>getFromCache\<close> and in \<^verbatim>\<open>setCache\<close>) and the value of
  \<^verbatim>\<open>new Date().toISOString()\<close>.
\<close>

record env =
  launchFailure :: jsstring
  newPageFailure :: jsstring
  load :: "string \<Rightarrow> pageLoad"
  nowAtLookup :: int
  nowAtStore :: int
  isoNow :: string

text \<open>\<^verbatim>\<open>init\<close> (lines 10--23) and \<^verbatim>\<open>close\<close> (lines 25--30). \<open>Inl\<close> is a thrown error's message.\<close>

definition init :: "env \<Rightarrow> state \<Rightarrow> (string + unit) \<times> state" where
  "init e s =
     (if \<not> browser s then
        (case launchFailure e of
           Some msg \<Rightarrow> (Inl msg, s)
         | None \<Rightarrow> (Inr (), s\<lparr> browser := True \<rparr>))
      else (Inr (), s))"

definition close :: "state \<Rightarrow> state" where
  "close s = (if browser s then s\<lparr> browser := False \<rparr> else s)"

text \<open>
  \<^verbatim>\<open>this.browser.newPage()\<close> and \<^verbatim>\<open>browserPage.close()\<close>; closing a page is taken
  to resolve. The state counts the page contexts that are open.
\<close>

definition newPage :: "env \<Rightarrow> state \<Rightarrow> (string + unit) \<times> state" where
  "newPage e s =
     (case newPageFailure e of
        Some msg \<Rightarrow> (Inl msg, s)
      | None \<Rightarrow> (Inr (), s\<lparr> openPages := openPages s + 1 \<rparr>))"

definition closePage :: "state \<Rightarrow> state" where
  "closePage s = s\<lparr> openPages := openPages s - 1 \<rparr>"

section \<open>\<^verbatim>\<open>search\<close>\<close>

text \<open>
  The URL of line 89, then the body of the \<^verbatim>\<open>try\<close> block (lines 84--164).
  \<^verbatim>\<open>setViewport\<close> and \<^verbatim>\<open>setUserAgent\<close> change nothing that is modelled.
\<close>

definition buildSearchUrl :: "siteConfig \<Rightarrow> string \<Rightarrow> string" where
  "buildSearchUrl cfg q = replaceFirst (searchUrl cfg) ''{query}'' (encodeURIComponent q)"

definition scrape ::
  "siteConfig \<Rightarrow> string \<Rightarrow> nat \<Rightarrow> string \<Rightarrow> env \<Rightarrow> state \<Rightarrow> (string + addr) \<times> state" where
  "scrape cfg q pg cacheKey e s =
     (let pl = load e (buildSearchUrl cfg q)
      in case gotoFailure pl of
           Some msg \<Rightarrow> (Inl msg, s)
         | None \<Rightarrow>
             if querySelector (document pl) (sel_productCard (selectors cfg)) = None
             then (Inl (timeoutMessage pl), s)
             else (case evaluateFailure pl of
                     Some msg \<Rightarrow> (Inl msg, s)
                   | None \<Rightarrow>
                       (let products = extractProducts (locationOrigin pl) (document pl) (selectors cfg);
                            (arr, s1) = allocArray products s;
                            (res, s2) = allocObject
                               \<lparr> site = name cfg, query = q, page = pg,
                                 totalResults = length products, results = arr,
                                 cached = False, timestamp = isoNow e \<rparr> s1
                        in (Inr res, setCache cacheKey res (nowAtStore e) s2))))"

text \<open>
  \<^verbatim>\<open>search(siteConfig, query, page = 1)\<close> (lines 72--172). The result is the address of
  the returned object, or \<open>Inl\<close> the message of the error thrown. On a hit the object
  literal \<^verbatim>\<open>{ ...cached, cached: true }\<close> is a new object holding the fields of the
  stored one. \<^verbatim>\<open>init\<close> and \<^verbatim>\<open>newPage\<close> run before the \<^verbatim>\<open>try\<close>: their errors are not
  wrapped. \<^verbatim>\<open>catch\<close> wraps the message (its \<^verbatim>\<open>console.error\<close> only writes to the
  log), \<^verbatim>\<open>finally\<close> closes the page on both paths.
  A reference of JavaScript always leads to an object; the branch for an address
  without object is there to make the function total. The parameter \<^verbatim>\<open>page = 1\<close>
  takes its default when the argument is missing.
\<close>

definition defaultPage :: "nat option \<Rightarrow> nat" where
  "defaultPage pageArg = (case pageArg of None \<Rightarrow> 1 | Some n \<Rightarrow> n)"

definition search ::
  "siteConfig \<Rightarrow> string \<Rightarrow> nat option \<Rightarrow> env \<Rightarrow> state \<Rightarrow> (string + addr) \<times> state" where
  "search cfg q pageArg e s =
     (let pg = defaultPage pageArg;
          cacheKey = getCacheKey cfg q pg;
          (hit, s1) = getFromCache cacheKey (nowAtLookup e) s
      in case hit of
           Some a \<Rightarrow>
             (case objects s1 a of
                Some r \<Rightarrow> (let (copy, s2) = allocObject (r\<lparr> cached := True \<rparr>) s1 in (Inr copy, s2))
              | None \<Rightarrow> (Inl ''no object at this address'', s1))
         | None \<Rightarrow>
             (case init e s1 of
                (Inl msg, s2) \<Rightarrow> (Inl msg, s2)
              | (Inr _, s2) \<Rightarrow>
                  (case newPage e s2 of
                     (Inl msg, s3) \<Rightarrow> (Inl msg, s3)
                   | (Inr _, s3) \<Rightarrow>
                       (case scrape cfg q pg cacheKey e s3 of
                          (Inl msg, s4) \<Rightarrow>
                            (Inl (''Failed to scrape '' @ name cfg @ '': '' @ msg), closePage s4)
                        | (Inr res, s4) \<Rightarrow> (Inr res, closePage s4)))))"

section \<open>\<^verbatim>\<open>getProductDetails\<close>\<close>

record detailSelectorSet =
  dsel_title :: string
  dsel_price :: string
  dsel_description :: jsstring
  dsel_brand :: jsstring
  dsel_rating :: jsstring
  dsel_images :: jsstring
  dsel_availability :: jsstring

record productDetail =
  d_site :: string
  d_url :: string
  d_title :: jsstring
  d_price :: jsstring
  d_description :: jsstring
  d_brand :: jsstring
  d_rating :: jsstring
  d_images :: "string list"
  d_availability :: jsstring
  d_timestamp :: string

text \<open>
  The in-page function of lines 191--216 together with the object assembled at lines
  218--223 (the spread \<^verbatim>\<open>...product\<close> comes after \<^verbatim>\<open>site\<close> and \<^verbatim>\<open>url\<close> and
  defines neither).
\<close>

definition extractDetail ::
  "siteConfig \<Rightarrow> string \<Rightarrow> detailSelectorSet \<Rightarrow> string \<Rightarrow> element \<Rightarrow> productDetail" where
  "extractDetail cfg productUrl sels isoTime doc =
     \<lparr> d_site = name cfg,
       d_url = productUrl,
       d_title = getTextContent doc (dsel_title sels),
       d_price = getTextContent doc (dsel_price sels),
       d_description = optionalText doc (dsel_description sels),
       d_brand = optionalText doc (dsel_brand sels),
       d_rating = optionalText doc (dsel_rating sels),
       d_images = (case dsel_images sels of
                     None \<Rightarrow> []
                   | Some sel \<Rightarrow> if truthy (dsel_images sels) then getAllImages doc sel else []),
       d_availability = optionalText doc (dsel_availability sels),
       d_timestamp = isoTime \<rparr>"

text \<open>\<^verbatim>\<open>getProductDetails\<close> (lines 180--231): no cache, no wait for a selector.\<close>

definition getProductDetails ::
  "siteConfig \<Rightarrow> string \<Rightarrow> detailSelectorSet \<Rightarrow> env \<Rightarrow> state \<Rightarrow> (string + productDetail) \<times> state" where
  "getProductDetails cfg productUrl sels e s =
     (case init e s of
        (Inl msg, s1) \<Rightarrow> (Inl msg, s1)
      | (Inr _, s1) \<Rightarrow>
          (case newPage e s1 of
             (Inl msg, s2) \<Rightarrow> (Inl msg, s2)
           | (Inr _, s2) \<Rightarrow>
               (let pl = load e productUrl;
                    outcome =
                      (case gotoFailure pl of
                         Some msg \<Rightarrow> Inl msg
                       | None \<Rightarrow>
                           (case evaluateFailure pl of
                              Some msg \<Rightarrow> Inl msg
                            | None \<Rightarrow> Inr (extractDetail cfg productUrl sels (isoNow e) (document pl))))
                in case outcome of
                     Inl msg \<Rightarrow> (Inl (''Failed to get product details: '' @ msg), closePage s2)
                   | Inr d \<Rightarrow> (Inr d, closePage s2))))"

section \<open>The states a scraper reaches\<close>

text \<open>
  The states reached from \<^verbatim>\<open>new MultiSiteScraper()\<close> by the methods that the HTTP
  layer calls (\<^verbatim>\<open>search\<close>, \<^verbatim>\<open>getProductDetails\<close>, \<^verbatim>\<open>clearCache\<close>, \<^verbatim>\<open>init\<close>,
  \<^verbatim>\<open>close\<close>), under any behaviour of the browser and of the clock. \<^verbatim>\<open>getFromCache\<close>
  and \<^verbatim>\<open>setCache\<close> run inside \<^verbatim>\<open>search\<close> only, and callers leave the objects they
  receive as they are.
\<close>

inductive reachable :: "state \<Rightarrow> bool" where
  reach_new: "reachable newScraper"
| reach_search: "reachable s \<Longrightarrow> reachable (snd (search cfg q pageArg e s))"
| reach_details: "reachable s \<Longrightarrow> reachable (snd (getProductDetails cfg productUrl sels e s))"
| reach_clearCache: "reachable s \<Longrightarrow> reachable (clearCache s)"
| reach_init: "reachable s \<Longrightarrow> reachable (snd (init e s))"
| reach_close: "reachable s \<Longrightarrow> reachable (close s)"

text \<open>The page that a search for \<open>q\<close> on the site \<open>cfg\<close> loads.\<close>

abbreviation searchPage :: "env \<Rightarrow> siteConfig \<Rightarrow> string \<Rightarrow> pageLoad" where
  "searchPage e cfg q \<equiv> load e (buildSearchUrl cfg q)"

text \<open>
  The invariant of the store and the cache: addresses from \<open>nextAddr\<close> on are free, and
  every cache entry refers to an object with \<^verbatim>\<open>cached: false\<close> whose \<^verbatim>\<open>results\<close>
  array has \<^verbatim>\<open>totalResults\<close> elements, all of them with title and price.
\<close>

definition cacheSound :: "state \<Rightarrow> bool" where
  "cacheSound s =
     ((\<forall>a. nextAddr s \<le> a \<longrightarrow> objects s a = None \<and> arrays s a = None) \<and>
      (\<forall>k en. cache s k = Some en \<longrightarrow>
         (\<exists>r ps. objects s (entry_data en) = Some r \<and> arrays s (results r) = Some ps \<and>
                  totalResults r = length ps \<and> list_all qualifies ps \<and> cached r = False)))"

section \<open>The properties as the specification words them\<close>

text \<open>
  A placeholder image source, in the words of the specification a \<^verbatim>\<open>data:image...\<close>
  value: a string that begins with \<^verbatim>\<open>data:image\<close>.
\<close>

definition isPlaceholder :: "string \<Rightarrow> bool" where
  "isPlaceholder s = startsWith s ''data:image''"

text \<open>
  The image of a card in the words of the specification: the \<^verbatim>\<open>data-src\<close> attribute
  exactly when \<^verbatim>\<open>src\<close> is absent or a placeholder, \<^verbatim>\<open>src\<close> otherwise.
\<close>

definition specImage :: "element \<Rightarrow> string \<Rightarrow> jsstring" where
  "specImage cardEl selector =
     (case getAttribute cardEl selector ''src'' of
        None \<Rightarrow> getAttribute cardEl selector ''data-src''
      | Some s \<Rightarrow> if isPlaceholder s then getAttribute cardEl selector ''data-src'' else Some s)"

text \<open>
  The resolved image source of one element of a detail page in the words of the
  specification: \<^verbatim>\<open>src\<close>, else \<^verbatim>\<open>data-src\<close>, else nothing; and the sources of a
  sequence of elements, in their order, the elements without source left out.
\<close>

definition resolvedSource :: "element \<Rightarrow> jsstring" where
  "resolvedSource el =
     (case srcProperty el of
        Some (c # cs) \<Rightarrow> Some (c # cs)
      | _ \<Rightarrow> (case attribute el ''data-src'' of
                Some (c # cs) \<Rightarrow> Some (c # cs)
              | _ \<Rightarrow> None))"

fun collectSources :: "element list \<Rightarrow> string list" where
  "collectSources [] = []"
| "collectSources (el # els) =
     (case resolvedSource el of
        None \<Rightarrow> collectSources els
      | Some u \<Rightarrow> u # collectSources els)"

section \<open>Example sites and pages\<close>

text \<open>
  The site of the end-to-end scenario of the specification: two cards, the first with
  title, price, a lazily loaded image and a link, the second with a title only.
\<close>

definition acmeSelectors :: selectorSet where
  "acmeSelectors = \<lparr> sel_productCard = ''.card'', sel_title = ''.t'', sel_price = ''.p'',
                      sel_image = ''img'', sel_link = ''a'', sel_brand = None, sel_rating = None \<rparr>"

definition acme :: siteConfig where
  "acme = \<lparr> name = ''Acme'', searchUrl = ''https://acme.test/s?q={query}'', selectors = acmeSelectors \<rparr>"

definition drillCard :: element where
  "drillCard =
     Element ''Drill 18V 99.00'' [] None
       [(''.t'', [Element '' Drill 18V '' [] None []]),
        (''.p'', [Element ''99.00'' [] None []]),
        (''img'', [Element [] [(''src'', ''data:image/gif;base64,R0lGODlhAQABAAAAACw=''),
                               (''data-src'', ''https://acme.test/img/drill.jpg'')]
                     (Some ''data:image/gif;base64,R0lGODlhAQABAAAAACw='') []]),
        (''a'', [Element ''Drill 18V'' [(''href'', ''/tools/p7X42AB'')] None []])]"

definition titleOnlyCard :: element where
  "titleOnlyCard = Element ''Saw'' [] None [(''.t'', [Element ''Saw'' [] None []])]"

definition acmeDocument :: element where
  "acmeDocument = Element ''Drill 18V 99.00 Saw'' [] None [(''.card'', [drillCard, titleOnlyCard])]"

definition acmePage :: pageLoad where
  "acmePage = \<lparr> gotoFailure = None, timeoutMessage = ''Waiting failed: 15000ms exceeded'',
                 evaluateFailure = None, locationOrigin = ''https://acme.test'',
                 document = acmeDocument \<rparr>"

text \<open>A page that answers but shows no card, and one whose only card has no price.\<close>

definition emptyPage :: pageLoad where
  "emptyPage = acmePage\<lparr> document := Element ''No results'' [] None [] \<rparr>"

definition titleOnlyPage :: pageLoad where
  "titleOnlyPage = acmePage\<lparr> document := Element ''Saw'' [] None [(''.card'', [titleOnlyCard])] \<rparr>"

text \<open>A host that cannot be reached.\<close>

definition offlinePage :: pageLoad where
  "offlinePage = acmePage\<lparr> gotoFailure := Some ''net::ERR_NAME_NOT_RESOLVED'' \<rparr>"

text \<open>
  A browser that serves \<open>acmePage\<close> at the URL of the query \<^verbatim>\<open>drill\<close> and nothing
  elsewhere; the clock reads 1000 ms at the lookup and 5000 ms at the store.
\<close>

definition acmeEnv :: env where
  "acmeEnv = \<lparr> launchFailure = None, newPageFailure = None,
                load = (\<lambda>u. if u = ''https://acme.test/s?q=drill'' then acmePage else offlinePage),
                nowAtLookup = 1000, nowAtStore = 5000, isoNow = ''2026-02-16T12:00:00.000Z'' \<rparr>"

text \<open>
  A browser that serves the same page at every URL; the clock reads \<open>now\<close> at the lookup
  and four seconds more at the store.
\<close>

definition servingEnv :: "pageLoad \<Rightarrow> int \<Rightarrow> env" where
  "servingEnv pl now = \<lparr> launchFailure = None, newPageFailure = None, load = (\<lambda>u. pl),
                          nowAtLookup = now, nowAtStore = now + 4000,
                          isoNow = ''2026-02-16T12:00:00.000Z'' \<rparr>"

text \<open>Two sites whose names differ by a colon.\<close>

definition siteAB :: siteConfig where
  "siteAB = acme\<lparr> name := ''a:b'' \<rparr>"

definition siteA :: siteConfig where
  "siteA = acme\<lparr> name := ''a'' \<rparr>"

text \<open>A card whose link is the \<^verbatim>\<open>/product/\<close> form of a product URL.\<close>

definition productLinkCard :: element where
  "productLinkCard =
     Element ''Hammer 12.50'' [] None
       [(''.t'', [Element ''Hammer'' [] None []]),
        (''.p'', [Element ''12.50'' [] None []]),
        (''a'', [Element ''Hammer'' [(''href'', ''/product/AB12'')] None []])]"

text \<open>
  A card whose image has a real URL that mentions \<^verbatim>\<open>data:image\<close> in its query
  string, beside a \<^verbatim>\<open>data-src\<close> attribute.
\<close>

definition queryStringCard :: element where
  "queryStringCard =
     Element ''Pliers 8.00'' [] None
       [(''img'', [Element [] [(''src'', ''https://cdn.acme.test/pliers.png?fallback=data:image/png''),
                               (''data-src'', ''https://cdn.acme.test/lazy/pliers.png'')]
                     (Some ''https://cdn.acme.test/pliers.png?fallback=data:image/png'') []])]"

text \<open>
  A detail page with three \<^verbatim>\<open>img\<close> elements under the selector \<^verbatim>\<open>.gallery img\<close>:
  the first and the third with \<^verbatim>\<open>src\<close>, the second with \<^verbatim>\<open>data-src\<close> only.
\<close>

definition galleryDocument :: element where
  "galleryDocument =
     Element ''Drill 18V'' [] None
       [(''h1'', [Element ''Drill 18V'' [] None []]),
        (''.gallery img'',
           [Element [] [(''src'', ''/img/front.jpg'')] (Some ''https://acme.test/img/front.jpg'') [],
            Element [] [(''data-src'', ''https://acme.test/img/side.jpg'')] (Some []) [],
            Element [] [(''src'', ''/img/back.jpg'')] (Some ''https://acme.test/img/back.jpg'') []])]"

definition gallerySelectors :: detailSelectorSet where
  "gallerySelectors = \<lparr> dsel_title = ''h1'', dsel_price = ''.price'', dsel_description = None,
                         dsel_brand = None, dsel_rating = None, dsel_images = Some ''.gallery img'',
                         dsel_availability = None \<rparr>"

text \<open>
  The scraper after one successful search for \<^verbatim>\<open>drill\<close> on the example site, and
  another browser that finds the host unreachable, read at a later time of lookup.
\<close>

definition warmState :: state where
  "warmState = snd (search acme ''drill'' None acmeEnv newScraper)"

definition offlineEnv :: "int \<Rightarrow> env" where
  "offlineEnv now = servingEnv offlinePage now"

definition galleryPage :: pageLoad where
  "galleryPage = acmePage\<lparr> document := galleryDocument \<rparr>"

section \<open>Facts about the cache and the paths of \<^verbatim>\<open>search\<close>\<close>

lemmas dom_defs = querySelector_def querySelectorAll_def attribute_def getAttribute_def
  getTextContent_def truthy_def startsWith_def trim_def whiteSpace_def

lemma getFromCache_hit:
  "fst (getFromCache k now s) = Some a \<Longrightarrow>
   getFromCache k now s = (Some a, s) \<and>
   (\<exists>en. cache s k = Some en \<and> entry_data en = a \<and> now - entry_timestamp en < cacheTimeout)"
  by (auto simp: getFromCache_def split: option.splits if_splits)

lemma getFromCache_miss:
  "fst (getFromCache k now s) = None \<Longrightarrow>
   getFromCache k now s = (None, s\<lparr> cache := (cache s)(k := None) \<rparr>)"
  by (auto simp: getFromCache_def split: option.splits if_splits)

lemma getFromCache_miss_expired:
  "fst (getFromCache k now s) = None \<Longrightarrow> cache s k = Some en \<Longrightarrow>
   cacheTimeout \<le> now - entry_timestamp en"
  by (auto simp: getFromCache_def split: option.splits if_splits)

lemma getFromCache_live:
  "cache s k = Some en \<Longrightarrow> now - entry_timestamp en < cacheTimeout \<Longrightarrow>
   getFromCache k now s = (Some (entry_data en), s)"
  by (simp add: getFromCache_def)

lemma search_hit:
  assumes "fst (getFromCache (getCacheKey cfg q (defaultPage pa)) (nowAtLookup e) s) = Some a0"
    and "objects s a0 = Some r"
  shows "search cfg q pa e s =
     (Inr (nextAddr s),
      s\<lparr> objects := (objects s)(nextAddr s \<mapsto> r\<lparr> cached := True \<rparr>), nextAddr := nextAddr s + 1 \<rparr>)"
  using getFromCache_hit [OF assms(1)] assms(2)
  by (simp add: search_def allocObject_def)

text \<open>The three ways in which the body of the try block fails, with the message of each.\<close>

lemma scrape_goto_fails:
  "gotoFailure (searchPage e cfg q) = Some cause \<Longrightarrow> scrape cfg q pg key e s = (Inl cause, s)"
  by (simp add: scrape_def)

lemma scrape_wait_fails:
  "gotoFailure (searchPage e cfg q) = None \<Longrightarrow>
   querySelector (document (searchPage e cfg q)) (sel_productCard (selectors cfg)) = None \<Longrightarrow>
   scrape cfg q pg key e s = (Inl (timeoutMessage (searchPage e cfg q)), s)"
  by (simp add: scrape_def Let_def)

lemma scrape_evaluate_fails:
  "gotoFailure (searchPage e cfg q) = None \<Longrightarrow>
   querySelector (document (searchPage e cfg q)) (sel_productCard (selectors cfg)) \<noteq> None \<Longrightarrow>
   evaluateFailure (searchPage e cfg q) = Some cause \<Longrightarrow>
   scrape cfg q pg key e s = (Inl cause, s)"
  by (auto simp: scrape_def Let_def)

lemma scrape_succeeds:
  assumes "gotoFailure (searchPage e cfg q) = None"
    and "querySelector (document (searchPage e cfg q)) (sel_productCard (selectors cfg)) \<noteq> None"
    and "evaluateFailure (searchPage e cfg q) = None"
  shows "scrape cfg q pg key e s =
     (Inr (nextAddr s + 1),
      s\<lparr> cache := (cache s)(key \<mapsto> \<lparr> entry_data = nextAddr s + 1, entry_timestamp = nowAtStore e \<rparr>),
         objects := (objects s)(nextAddr s + 1 \<mapsto>
            \<lparr> site = name cfg, query = q, page = pg,
              totalResults = length (extractProducts (locationOrigin (searchPage e cfg q))
                                       (document (searchPage e cfg q)) (selectors cfg)),
              results = nextAddr s, cached = False, timestamp = isoNow e \<rparr>),
         arrays := (arrays s)(nextAddr s \<mapsto>
              extractProducts (locationOrigin (searchPage e cfg q))
                              (document (searchPage e cfg q)) (selectors cfg)),
         nextAddr := nextAddr s + 2 \<rparr>)"
  using assms by (simp add: scrape_def Let_def allocArray_def allocObject_def setCache_def)

text \<open>A search that misses the cache, with the browser and the page available.\<close>

lemma search_miss:
  assumes "fst (getFromCache (getCacheKey cfg q (defaultPage pa)) (nowAtLookup e) s) = None"
    and "browser s \<or> launchFailure e = None"
    and "newPageFailure e = None"
  shows "search cfg q pa e s =
     (case scrape cfg q (defaultPage pa) (getCacheKey cfg q (defaultPage pa)) e
             (s\<lparr> cache := (cache s)(getCacheKey cfg q (defaultPage pa) := None),
                browser := True, openPages := openPages s + 1 \<rparr>) of
        (Inl msg, s4) \<Rightarrow> (Inl (''Failed to scrape '' @ name cfg @ '': '' @ msg), closePage s4)
      | (Inr res, s4) \<Rightarrow> (Inr res, closePage s4))"
proof -
  let ?s1 = "s\<lparr> cache := (cache s)(getCacheKey cfg q (defaultPage pa) := None) \<rparr>"
  have i: "init e ?s1 = (Inr (), ?s1\<lparr> browser := True \<rparr>)"
    using assms(2) by (cases "browser s") (auto simp: init_def)
  have n: "newPage e (?s1\<lparr> browser := True \<rparr>) = (Inr (), ?s1\<lparr> browser := True, openPages := openPages s + 1 \<rparr>)"
    using assms(3) by (simp add: newPage_def)
  show ?thesis
    using getFromCache_miss [OF assms(1)] i n by (simp add: search_def Let_def)
qed

lemma search_Inr_miss:
  assumes "fst (getFromCache (getCacheKey cfg q (defaultPage pa)) (nowAtLookup e) s) = None"
    and "fst (search cfg q pa e s) = Inr a"
  shows "(browser s \<or> launchFailure e = None) \<and> newPageFailure e = None \<and>
         gotoFailure (searchPage e cfg q) = None \<and>
         querySelector (document (searchPage e cfg q)) (sel_productCard (selectors cfg)) \<noteq> None \<and>
         evaluateFailure (searchPage e cfg q) = None"
  using assms(2) getFromCache_miss [OF assms(1)]
  by (auto simp: search_def init_def newPage_def scrape_def Let_def allocArray_def allocObject_def
           split: option.splits if_splits prod.splits sum.splits)


lemma search_miss_fails:
  assumes "fst (getFromCache (getCacheKey cfg q (defaultPage pa)) (nowAtLookup e) s) = None"
    and "browser s \<or> launchFailure e = None"
    and "newPageFailure e = None"
    and "scrape cfg q (defaultPage pa) (getCacheKey cfg q (defaultPage pa)) e
           (s\<lparr> cache := (cache s)(getCacheKey cfg q (defaultPage pa) := None),
              browser := True, openPages := openPages s + 1 \<rparr>)
         = (Inl cause, s\<lparr> cache := (cache s)(getCacheKey cfg q (defaultPage pa) := None),
              browser := True, openPages := openPages s + 1 \<rparr>)"
  shows "search cfg q pa e s =
     (Inl (''Failed to scrape '' @ name cfg @ '': '' @ cause),
      s\<lparr> cache := (cache s)(getCacheKey cfg q (defaultPage pa) := None),
         browser := True, openPages := openPages s \<rparr>)"
  using search_miss [OF assms(1-3)] assms(4) by (simp add: closePage_def)

lemma search_miss_succeeds:
  assumes "fst (getFromCache (getCacheKey cfg q (defaultPage pa)) (nowAtLookup e) s) = None"
    and "fst (search cfg q pa e s) = Inr a"
  shows "search cfg q pa e s =
     (Inr (nextAddr s + 1),
      s\<lparr> cache := (cache s)(getCacheKey cfg q (defaultPage pa) \<mapsto>
                    \<lparr> entry_data = nextAddr s + 1, entry_timestamp = nowAtStore e \<rparr>),
         browser := True,
         objects := (objects s)(nextAddr s + 1 \<mapsto>
            \<lparr> site = name cfg, query = q, page = defaultPage pa,
              totalResults = length (extractProducts (locationOrigin (searchPage e cfg q))
                                       (document (searchPage e cfg q)) (selectors cfg)),
              results = nextAddr s, cached = False, timestamp = isoNow e \<rparr>),
         arrays := (arrays s)(nextAddr s \<mapsto>
              extractProducts (locationOrigin (searchPage e cfg q))
                              (document (searchPage e cfg q)) (selectors cfg)),
         nextAddr := nextAddr s + 2,
         openPages := openPages s \<rparr>)"
proof -
  note ok = search_Inr_miss [OF assms]
  show ?thesis
    using search_miss [OF assms(1)] ok
    by (simp add: scrape_succeeds closePage_def)
qed

lemma cacheSound_new: "cacheSound newScraper"
  by (simp add: cacheSound_def newScraper_def)

lemma cacheSound_forget: "cacheSound s \<Longrightarrow> cacheSound (s\<lparr> cache := (cache s)(k := None) \<rparr>)"
  by (simp add: cacheSound_def)

lemma cacheSound_clear: "cacheSound s \<Longrightarrow> cacheSound (s\<lparr> cache := Map.empty \<rparr>)"
  by (simp add: cacheSound_def)

lemma cacheSound_browser [simp]: "cacheSound (s\<lparr> browser := b \<rparr>) = cacheSound s"
  by (simp add: cacheSound_def)

lemma cacheSound_openPages [simp]: "cacheSound (s\<lparr> openPages := n \<rparr>) = cacheSound s"
  by (simp add: cacheSound_def)

lemma cacheSound_copy:
  assumes "cacheSound s"
  shows "cacheSound (s\<lparr> objects := (objects s)(nextAddr s \<mapsto> r), nextAddr := nextAddr s + 1 \<rparr>)"
  using assms unfolding cacheSound_def
  by (auto simp: le_Suc_eq) (metis option.distinct(1) order_refl)+

lemma list_all_extractProducts: "list_all qualifies (extractProducts origin doc sels)"
  by (simp add: extractProducts_def list_all_iff)

lemma cacheSoundI:
  assumes "\<And>a. nextAddr s \<le> a \<Longrightarrow> objects s a = None \<and> arrays s a = None"
    and "\<And>k en. cache s k = Some en \<Longrightarrow>
           \<exists>r ps. objects s (entry_data en) = Some r \<and> arrays s (results r) = Some ps \<and>
                  totalResults r = length ps \<and> list_all qualifies ps \<and> cached r = False"
  shows "cacheSound s"
  using assms unfolding cacheSound_def by blast

lemma cacheSound_free:
  "cacheSound s \<Longrightarrow> nextAddr s \<le> a \<Longrightarrow> objects s a = None \<and> arrays s a = None"
  by (simp add: cacheSound_def)

lemma cacheSound_entry:
  "cacheSound s \<Longrightarrow> cache s k = Some en \<Longrightarrow>
   \<exists>r ps. objects s (entry_data en) = Some r \<and> arrays s (results r) = Some ps \<and>
          totalResults r = length ps \<and> list_all qualifies ps \<and> cached r = False"
  unfolding cacheSound_def by blast

lemma cacheSound_cong:
  "cache s' = cache s \<Longrightarrow> objects s' = objects s \<Longrightarrow> arrays s' = arrays s \<Longrightarrow>
   nextAddr s' = nextAddr s \<Longrightarrow> cacheSound s' = cacheSound s"
  by (simp add: cacheSound_def)

lemma cacheSound_store:
  assumes sound: "cacheSound s" and ps: "list_all qualifies ps"
  shows "cacheSound (s\<lparr> cache := (cache s)(k \<mapsto> \<lparr> entry_data = nextAddr s + 1, entry_timestamp = t \<rparr>),
            objects := (objects s)(nextAddr s + 1 \<mapsto>
               \<lparr> site = n, query = q, page = pg, totalResults = length ps,
                 results = nextAddr s, cached = False, timestamp = ts \<rparr>),
            arrays := (arrays s)(nextAddr s \<mapsto> ps),
            nextAddr := nextAddr s + 2 \<rparr>)"
    (is "cacheSound ?s'")
proof (rule cacheSoundI)
  fix a
  assume "nextAddr ?s' \<le> a"
  then show "objects ?s' a = None \<and> arrays ?s' a = None"
    using cacheSound_free [OF sound, of a] by simp
next
  fix k' en
  assume en: "cache ?s' k' = Some en"
  show "\<exists>r ps. objects ?s' (entry_data en) = Some r \<and> arrays ?s' (results r) = Some ps \<and>
          totalResults r = length ps \<and> list_all qualifies ps \<and> cached r = False"
  proof (cases "k' = k")
    case True
    with en ps show ?thesis by auto
  next
    case False
    with en have old: "cache s k' = Some en" by simp
    from cacheSound_entry [OF sound old] obtain r qs
      where r: "objects s (entry_data en) = Some r" and qs: "arrays s (results r) = Some qs"
        and rest: "totalResults r = length qs" "list_all qualifies qs" "cached r = False"
      by blast
    have "entry_data en \<noteq> nextAddr s + 1"
      using cacheSound_free [OF sound, of "nextAddr s + 1"] r by auto
    moreover have "results r \<noteq> nextAddr s"
      using cacheSound_free [OF sound, of "nextAddr s"] qs by auto
    ultimately show ?thesis using r qs rest by simp
  qed
qed

lemma cacheSound_search:
  assumes "cacheSound s"
  shows "cacheSound (snd (search cfg q pa e s))"
proof (cases "fst (getFromCache (getCacheKey cfg q (defaultPage pa)) (nowAtLookup e) s)")
  case (Some a0)
  note hit = getFromCache_hit [OF Some]
  then obtain en where en: "cache s (getCacheKey cfg q (defaultPage pa)) = Some en" "entry_data en = a0"
    by blast
  from cacheSound_entry [OF assms en(1)] en(2) obtain r where "objects s a0 = Some r" by blast
  from search_hit [OF Some this] cacheSound_copy [OF assms] show ?thesis by simp
next
  case None
  let ?k = "getCacheKey cfg q (defaultPage pa)"
  note miss = getFromCache_miss [OF None]
  have s1: "cacheSound (s\<lparr> cache := (cache s)(?k := None) \<rparr>)"
    by (rule cacheSound_forget [OF assms])
  show ?thesis
  proof (cases "fst (search cfg q pa e s)")
    case (Inr a)
    note shape = search_miss_succeeds [OF None Inr]
    have "cacheSound (snd (search cfg q pa e s)) =
          cacheSound (s\<lparr> cache := (cache s)(?k \<mapsto> \<lparr> entry_data = nextAddr s + 1,
                                                   entry_timestamp = nowAtStore e \<rparr>),
            objects := (objects s)(nextAddr s + 1 \<mapsto>
               \<lparr> site = name cfg, query = q, page = defaultPage pa,
                 totalResults = length (extractProducts (locationOrigin (searchPage e cfg q))
                                          (document (searchPage e cfg q)) (selectors cfg)),
                 results = nextAddr s, cached = False, timestamp = isoNow e \<rparr>),
            arrays := (arrays s)(nextAddr s \<mapsto>
                 extractProducts (locationOrigin (searchPage e cfg q))
                                 (document (searchPage e cfg q)) (selectors cfg)),
            nextAddr := nextAddr s + 2 \<rparr>)"
      by (rule cacheSound_cong) (simp_all add: shape)
    then show ?thesis
      using cacheSound_store [OF assms list_all_extractProducts] by simp
  next
    case (Inl msg)
    have "snd (search cfg q pa e s) = s\<lparr> cache := (cache s)(?k := None) \<rparr> \<or>
          snd (search cfg q pa e s) = s\<lparr> cache := (cache s)(?k := None), browser := True \<rparr> \<or>
          snd (search cfg q pa e s) = s\<lparr> cache := (cache s)(?k := None), browser := True,
                                        openPages := openPages s \<rparr>"
      using Inl miss
      by (auto simp: search_def init_def newPage_def scrape_def Let_def allocArray_def allocObject_def
            closePage_def split: option.splits if_splits prod.splits sum.splits)
    with s1 show ?thesis by auto
  qed
qed

lemma cacheSound_details: "cacheSound s \<Longrightarrow> cacheSound (snd (getProductDetails cfg u sels e s))"
  by (auto simp: getProductDetails_def init_def newPage_def closePage_def Let_def
           split: option.splits if_splits prod.splits sum.splits)

lemma reachable_cacheSound: "reachable s \<Longrightarrow> cacheSound s"
proof (induction rule: reachable.induct)
  case reach_new
  show ?case by (rule cacheSound_new)
next
  case (reach_search s cfg q pageArg e)
  then show ?case by (simp add: cacheSound_search)
next
  case (reach_details s cfg productUrl sels e)
  then show ?case by (simp add: cacheSound_details)
next
  case (reach_clearCache s)
  then show ?case by (simp add: clearCache_def cacheSound_clear)
next
  case (reach_init s e)
  then show ?case by (auto simp: init_def split: option.splits)
next
  case (reach_close s)
  then show ?case by (simp add: close_def)
qed

lemma search_miss_ok:
  assumes miss: "fst (getFromCache (getCacheKey cfg q (defaultPage pa)) (nowAtLookup e) s) = None"
    and started: "browser s \<or> launchFailure e = None" "newPageFailure e = None"
    and page_ok: "gotoFailure (searchPage e cfg q) = None"
      "querySelector (document (searchPage e cfg q)) (sel_productCard (selectors cfg)) \<noteq> None"
      "evaluateFailure (searchPage e cfg q) = None"
  shows "fst (search cfg q pa e s) = Inr (nextAddr s + 1)"
  using search_miss [OF miss started] by (simp add: scrape_succeeds [OF page_ok])

section \<open>The example site, evaluated\<close>

lemma acme_url: "buildSearchUrl acme ''drill'' = ''https://acme.test/s?q=drill''"
  by (simp add: buildSearchUrl_def acme_def encodeURIComponent_def isUnreserved_def isAlnum_def startsWith_def)

lemma acme_key: "getCacheKey acme ''drill'' (defaultPage None) = ''Acme:drill:1''"
  by (simp add: getCacheKey_def acme_def defaultPage_def showNat.simps)

lemma acme_products:
  "extractProducts ''https://acme.test'' acmeDocument acmeSelectors =
     [\<lparr> productCode = Some ''7X42AB'', title = Some ''Drill 18V'', brand = None,
        price = Some ''99.00'', rating = None,
        image_url = Some ''https://acme.test/img/drill.jpg'',
        url = Some ''https://acme.test/tools/p7X42AB'' \<rparr>]"
  by (simp add: extractProducts_def acmeDocument_def acmeSelectors_def drillCard_def titleOnlyCard_def
      extractCard_def qualifies_def linkOf_def imageOf_def optionalText_def dom_defs
      productCodeOf_def alnumRun_def isAlnum_def canonicalize_def Let_def)

lemma acme_fields:
  "name acme = ''Acme''" "searchUrl acme = ''https://acme.test/s?q={query}''"
  "selectors acme = acmeSelectors"
  by (simp_all add: acme_def)

lemma acme_first_miss:
  "fst (getFromCache (getCacheKey acme ''drill'' (defaultPage None)) (nowAtLookup acmeEnv) newScraper) = None"
  by (simp add: getFromCache_def newScraper_def)

lemma acme_first_search: "fst (search acme ''drill'' None acmeEnv newScraper) = Inr 1"
proof -
  have pg: "searchPage acmeEnv acme ''drill'' = acmePage"
    by (simp add: acme_url acmeEnv_def)
  have "fst (search acme ''drill'' None acmeEnv newScraper) = Inr (nextAddr newScraper + 1)"
    by (rule search_miss_ok [OF acme_first_miss])
       (simp_all add: acme_url acme_fields acmeEnv_def acmePage_def acmeDocument_def acmeSelectors_def
          querySelector_def querySelectorAll_def)
  then show ?thesis by (simp add: newScraper_def)
qed

lemma warmState_eq:
  "cache warmState ''Acme:drill:1'' = Some \<lparr> entry_data = 1, entry_timestamp = 5000 \<rparr> \<and>
   objects warmState 1 = Some \<lparr> site = ''Acme'', query = ''drill'', page = 1, totalResults = 1,
                          results = 0, cached = False, timestamp = ''2026-02-16T12:00:00.000Z'' \<rparr> \<and>
   arrays warmState 0 = Some (extractProducts ''https://acme.test'' acmeDocument acmeSelectors) \<and>
   nextAddr warmState = 2 \<and> openPages warmState = 0 \<and> browser warmState"
proof -
  have pg: "searchPage acmeEnv acme ''drill'' = acmePage"
    by (simp add: acme_url acmeEnv_def)
  have nm: "name acme = ''Acme''" "selectors acme = acmeSelectors" by (simp_all add: acme_def)
  have pl: "locationOrigin acmePage = ''https://acme.test''" "document acmePage = acmeDocument"
    by (simp_all add: acmePage_def)
  have env: "nowAtStore acmeEnv = 5000" "isoNow acmeEnv = ''2026-02-16T12:00:00.000Z''"
    by (simp_all add: acmeEnv_def)
  have new: "nextAddr newScraper = 0" "openPages newScraper = 0"
    by (simp_all add: newScraper_def)
  have dp: "defaultPage None = 1" by (simp add: defaultPage_def)
  note shape = search_miss_succeeds [OF acme_first_miss acme_first_search, unfolded pg acme_key nm pl env new]
  show ?thesis
    unfolding warmState_def shape by (simp add: acme_products dp)
qed

section \<open>The cache store\<close>

text \<open>
  C6. \<^verbatim>\<open>getFromCache\<close>: the time to live is one hour (3600000 ms). An entry whose age
  \<open>now - timestamp\<close> is strictly less than that is returned and the cache stays as it
  is. In every other case the lookup answers "absent" and leaves the cache without an
  entry under the key, so that every later lookup of the key answers "absent" too.
\<close>

theorem getFromCache_semantics:
  "cacheTimeout = 3600000 \<and>
   (\<forall>en. cache s key = Some en \<and> now - entry_timestamp en < cacheTimeout \<longrightarrow>
         getFromCache key now s = (Some (entry_data en), s)) \<and>
   ((\<forall>en. cache s key = Some en \<longrightarrow> \<not> now - entry_timestamp en < cacheTimeout) \<longrightarrow>
         getFromCache key now s = (None, s\<lparr> cache := (cache s)(key := None) \<rparr>) \<and>
         (\<forall>later. fst (getFromCache key later (snd (getFromCache key now s))) = None))"
  by (auto simp: getFromCache_def cacheTimeout_def split: option.splits)

theorem getFromCache_semantics_witness:
  "cache warmState ''Acme:drill:1'' = Some \<lparr> entry_data = 1, entry_timestamp = 5000 \<rparr> \<and>
   getFromCache ''Acme:drill:1'' 3604999 warmState = (Some 1, warmState) \<and>
   fst (getFromCache ''Acme:drill:1'' 3605000 warmState) = None \<and>
   cache (snd (getFromCache ''Acme:drill:1'' 3605000 warmState)) ''Acme:drill:1'' = None \<and>
   fst (getFromCache ''Acme:drill:1'' 6000 (snd (getFromCache ''Acme:drill:1'' 3605000 warmState))) = None"
proof -
  have en: "cache warmState ''Acme:drill:1'' = Some \<lparr> entry_data = 1, entry_timestamp = 5000 \<rparr>"
    using warmState_eq by blast
  have fresh: "cache warmState ''Acme:drill:1'' = Some \<lparr> entry_data = 1, entry_timestamp = 5000 \<rparr> \<and>
               3604999 - entry_timestamp \<lparr> entry_data = 1, entry_timestamp = 5000 \<rparr> < cacheTimeout"
    by (simp add: en cacheTimeout_def)
  have stale: "\<forall>e. cache warmState ''Acme:drill:1'' = Some e \<longrightarrow> \<not> 3605000 - entry_timestamp e < cacheTimeout"
    by (auto simp: en cacheTimeout_def)
  from getFromCache_semantics [of warmState "''Acme:drill:1''" 3604999] fresh
  have a: "getFromCache ''Acme:drill:1'' 3604999 warmState = (Some 1, warmState)"
    by fastforce
  from getFromCache_semantics [of warmState "''Acme:drill:1''" 3605000] stale
  have b: "getFromCache ''Acme:drill:1'' 3605000 warmState
             = (None, warmState\<lparr> cache := (cache warmState)(''Acme:drill:1'' := None) \<rparr>)"
    and c: "fst (getFromCache ''Acme:drill:1'' 6000 (snd (getFromCache ''Acme:drill:1'' 3605000 warmState))) = None"
    by blast+
  show ?thesis
    using en a c by (simp add: b)
qed

section \<open>Product-code inference\<close>

text \<open>
  C1. A card whose link is \<^verbatim>\<open>/product/AB12\<close>, on a page of origin
  \<^verbatim>\<open>https://shop.example\<close>: the resolved link is
  \<^verbatim>\<open>https://shop.example/product/AB12\<close> and the product code inferred from it is
  \<^verbatim>\<open>roduct\<close>, because the first pattern matches at \<^verbatim>\<open>/product\<close>; the second
  pattern, had it been tried, finds \<^verbatim>\<open>AB12\<close>. In the same way a link that ends in
  \<^verbatim>\<open>/p7X42AB\<close> yields \<^verbatim>\<open>7X42AB\<close> on the host \<^verbatim>\<open>shop.example\<close>, but \<^verbatim>\<open>ets\<close> on the
  host \<^verbatim>\<open>pets.example\<close>, where the first pattern matches at \<^verbatim>\<open>/pets\<close>.
\<close>

theorem product_link_code:
  "url (extractCard ''https://shop.example'' acmeSelectors productLinkCard)
     = Some ''https://shop.example/product/AB12'' \<and>
   productCode (extractCard ''https://shop.example'' acmeSelectors productLinkCard)
     = Some ''roduct'' \<and>
   leftmost product_here ''https://shop.example/product/AB12'' = Some ''AB12'' \<and>
   productCodeOf (Some ''https://shop.example/p7X42AB'') = Some ''7X42AB'' \<and>
   productCodeOf (Some ''https://pets.example/p7X42AB'') = Some ''ets''"
  by code_simp

section \<open>Results of \<^verbatim>\<open>search\<close>\<close>

lemma reachable_warmState: "reachable warmState"
  unfolding warmState_def by (rule reach_search [OF reach_new])

lemma qualifies_fields: "qualifies p \<Longrightarrow> title p \<noteq> None \<and> price p \<noteq> None"
  by (auto simp: qualifies_def truthy_def split: option.splits)

lemma warm_hit:
  "fst (getFromCache (getCacheKey acme ''drill'' (defaultPage None)) (nowAtLookup (offlineEnv 6000)) warmState)
     = Some 1"
proof -
  have en: "cache warmState ''Acme:drill:1'' = Some \<lparr> entry_data = 1, entry_timestamp = 5000 \<rparr>"
    using warmState_eq by blast
  show ?thesis
    using getFromCache_live [OF en, of 6000]
    by (simp add: acme_key offlineEnv_def servingEnv_def cacheTimeout_def)
qed

text \<open>
  C4. In every state that a scraper reaches, a call of \<^verbatim>\<open>search\<close> that returns a result
  returns an object whose \<^verbatim>\<open>totalResults\<close> is the length of its \<^verbatim>\<open>results\<close> array,
  and every element of the array has a title and a price (both non-null, and non-empty).
  When the call misses the cache, the array is the extracted cards with those lacking
  either field dropped.
\<close>

theorem search_result_invariant:
  assumes "reachable s" and "fst (search cfg q pa e s) = Inr a"
  shows "\<exists>r ps. objects (snd (search cfg q pa e s)) a = Some r \<and>
                arrays (snd (search cfg q pa e s)) (results r) = Some ps \<and>
                totalResults r = length ps \<and>
                (\<forall>p \<in> set ps. title p \<noteq> None \<and> price p \<noteq> None \<and> qualifies p) \<and>
                (fst (getFromCache (getCacheKey cfg q (defaultPage pa)) (nowAtLookup e) s) = None \<longrightarrow>
                   ps = filter qualifies
                          (map (extractCard (locationOrigin (searchPage e cfg q)) (selectors cfg))
                               (querySelectorAll (document (searchPage e cfg q))
                                  (sel_productCard (selectors cfg)))))"
proof (cases "fst (getFromCache (getCacheKey cfg q (defaultPage pa)) (nowAtLookup e) s)")
  case None
  note shape = search_miss_succeeds [OF None assms(2)]
  have a: "a = nextAddr s + 1" using assms(2) shape by simp
  have q: "\<forall>p \<in> set (extractProducts origin doc sels). title p \<noteq> None \<and> price p \<noteq> None \<and> qualifies p"
    for origin doc sels
    using qualifies_fields by (auto simp: extractProducts_def)
  show ?thesis
    unfolding shape a using None q by (simp add: extractProducts_def)
next
  case (Some a0)
  from getFromCache_hit [OF Some] obtain en
    where en: "cache s (getCacheKey cfg q (defaultPage pa)) = Some en" "entry_data en = a0"
    by blast
  from cacheSound_entry [OF reachable_cacheSound [OF assms(1)] en(1)] en(2)
  obtain r ps where r: "objects s a0 = Some r" and ps: "arrays s (results r) = Some ps"
    and rest: "totalResults r = length ps" "list_all qualifies ps"
    by blast
  note shape = search_hit [OF Some r]
  have a: "a = nextAddr s" using assms(2) shape by simp
  have "\<forall>p \<in> set ps. title p \<noteq> None \<and> price p \<noteq> None \<and> qualifies p"
    using rest(2) qualifies_fields by (auto simp: list_all_iff)
  then show ?thesis
    unfolding shape a using Some ps rest(1) by simp
qed

theorem search_result_invariant_witness:
  "reachable newScraper \<and> fst (search acme ''drill'' None acmeEnv newScraper) = Inr 1 \<and>
   (\<exists>r ps. objects (snd (search acme ''drill'' None acmeEnv newScraper)) 1 = Some r \<and>
           arrays (snd (search acme ''drill'' None acmeEnv newScraper)) (results r) = Some ps \<and>
           totalResults r = length ps \<and>
           (\<forall>p \<in> set ps. title p \<noteq> None \<and> price p \<noteq> None \<and> qualifies p))"
  using search_result_invariant [OF reach_new acme_first_search] reach_new acme_first_search
  by blast

text \<open>
  C5. Two calls of \<^verbatim>\<open>search\<close> with the same site, query and page, one right after the
  other: when the first call finds no live entry and returns a result, and the second
  looks the cache up less than the time to live after the first stored, then the first
  result has \<^verbatim>\<open>cached: false\<close>, the second call returns a result too, equal to the first
  but for \<^verbatim>\<open>cached: true\<close>, and the \<^verbatim>\<open>results\<close> of both are the same sequence.
\<close>

theorem search_twice:
  assumes miss: "fst (getFromCache (getCacheKey cfg q (defaultPage pa)) (nowAtLookup e1) s) = None"
    and first: "fst (search cfg q pa e1 s) = Inr a1"
    and soon: "nowAtLookup e2 - nowAtStore e1 < cacheTimeout"
  shows "\<exists>r1 a2 ps.
           objects (snd (search cfg q pa e1 s)) a1 = Some r1 \<and> cached r1 = False \<and>
           arrays (snd (search cfg q pa e1 s)) (results r1) = Some ps \<and>
           fst (search cfg q pa e2 (snd (search cfg q pa e1 s))) = Inr a2 \<and>
           objects (snd (search cfg q pa e2 (snd (search cfg q pa e1 s)))) a2
             = Some (r1\<lparr> cached := True \<rparr>) \<and>
           arrays (snd (search cfg q pa e2 (snd (search cfg q pa e1 s)))) (results (r1\<lparr> cached := True \<rparr>))
             = Some ps"
proof -
  let ?k = "getCacheKey cfg q (defaultPage pa)"
  let ?s1 = "snd (search cfg q pa e1 s)"
  note shape = search_miss_succeeds [OF miss first]
  have a1: "a1 = nextAddr s + 1" using first shape by simp
  obtain r1 where r1: "objects ?s1 a1 = Some r1" "cached r1 = False" "results r1 = nextAddr s"
    unfolding shape a1 by simp
  obtain ps where ps: "arrays ?s1 (nextAddr s) = Some ps"
    unfolding shape by simp
  have entry: "cache ?s1 ?k = Some \<lparr> entry_data = a1, entry_timestamp = nowAtStore e1 \<rparr>"
    unfolding shape a1 by simp
  have hit: "fst (getFromCache ?k (nowAtLookup e2) ?s1) = Some a1"
    using getFromCache_live [OF entry] soon by simp
  note second = search_hit [OF hit r1(1)]
  show ?thesis
    using r1 ps by (auto simp: second)
qed


theorem search_twice_witness:
  "fst (getFromCache (getCacheKey acme ''drill'' (defaultPage None)) (nowAtLookup acmeEnv) newScraper) = None \<and>
   fst (search acme ''drill'' None acmeEnv newScraper) = Inr 1 \<and>
   nowAtLookup (offlineEnv 6000) - nowAtStore acmeEnv < cacheTimeout \<and>
   (\<exists>r1 a2 ps.
      objects (snd (search acme ''drill'' None acmeEnv newScraper)) 1 = Some r1 \<and> cached r1 = False \<and>
      arrays (snd (search acme ''drill'' None acmeEnv newScraper)) (results r1) = Some ps \<and>
      fst (search acme ''drill'' None (offlineEnv 6000) (snd (search acme ''drill'' None acmeEnv newScraper)))
        = Inr a2 \<and>
      objects (snd (search acme ''drill'' None (offlineEnv 6000)
                      (snd (search acme ''drill'' None acmeEnv newScraper)))) a2
        = Some (r1\<lparr> cached := True \<rparr>) \<and>
      arrays (snd (search acme ''drill'' None (offlineEnv 6000)
                     (snd (search acme ''drill'' None acmeEnv newScraper)))) (results (r1\<lparr> cached := True \<rparr>))
        = Some ps)"
proof -
  have soon: "nowAtLookup (offlineEnv 6000) - nowAtStore acmeEnv < cacheTimeout"
    by (simp add: offlineEnv_def servingEnv_def acmeEnv_def cacheTimeout_def)
  from search_twice [OF acme_first_miss acme_first_search soon] acme_first_miss acme_first_search soon
  show ?thesis by blast
qed

section \<open>Who holds the cached objects\<close>

text \<open>
  C3, as the code has it. In every state that a scraper reaches, a cache hit returns a
  newly allocated object, different from the stored one, whose fields are those of the
  stored \<^verbatim>\<open>SearchResult\<close> with \<^verbatim>\<open>cached\<close> set to true (its \<^verbatim>\<open>results\<close> is thus the
  stored array itself); the stored object keeps \<^verbatim>\<open>cached: false\<close>, and the read changes
  neither it, nor the cache, nor any array.
\<close>

theorem cache_hit_returns_copy:
  assumes "reachable s"
    and "fst (getFromCache (getCacheKey cfg q (defaultPage pa)) (nowAtLookup e) s) = Some a0"
  shows "\<exists>r0 a. objects s a0 = Some r0 \<and> cached r0 = False \<and>
               fst (search cfg q pa e s) = Inr a \<and> a \<noteq> a0 \<and> objects s a = None \<and>
               objects (snd (search cfg q pa e s)) a = Some (r0\<lparr> cached := True \<rparr>) \<and>
               objects (snd (search cfg q pa e s)) a0 = Some r0 \<and>
               cache (snd (search cfg q pa e s)) = cache s \<and>
               arrays (snd (search cfg q pa e s)) = arrays s"
proof -
  note sound = reachable_cacheSound [OF assms(1)]
  from getFromCache_hit [OF assms(2)] obtain en
    where en: "cache s (getCacheKey cfg q (defaultPage pa)) = Some en" "entry_data en = a0"
    by blast
  from cacheSound_entry [OF sound en(1)] en(2)
  obtain r0 where r0: "objects s a0 = Some r0" "cached r0 = False"
    by blast
  have free: "objects s (nextAddr s) = None"
    using cacheSound_free [OF sound, of "nextAddr s"] by simp
  with r0 have ne: "nextAddr s \<noteq> a0" by auto
  note shape = search_hit [OF assms(2) r0(1)]
  show ?thesis
    using r0 free ne by (auto simp: shape)
qed

theorem cache_hit_returns_copy_witness:
  "reachable warmState \<and>
   fst (getFromCache (getCacheKey acme ''drill'' (defaultPage None)) (nowAtLookup (offlineEnv 6000)) warmState)
     = Some 1 \<and>
   (\<exists>r0 a. objects warmState 1 = Some r0 \<and> cached r0 = False \<and>
           fst (search acme ''drill'' None (offlineEnv 6000) warmState) = Inr a \<and> a \<noteq> 1 \<and>
           objects warmState a = None \<and>
           objects (snd (search acme ''drill'' None (offlineEnv 6000) warmState)) a = Some (r0\<lparr> cached := True \<rparr>) \<and>
           objects (snd (search acme ''drill'' None (offlineEnv 6000) warmState)) 1 = Some r0 \<and>
           cache (snd (search acme ''drill'' None (offlineEnv 6000) warmState)) = cache warmState \<and>
           arrays (snd (search acme ''drill'' None (offlineEnv 6000) warmState)) = arrays warmState)"
proof -
  have en: "cache warmState ''Acme:drill:1'' = Some \<lparr> entry_data = 1, entry_timestamp = 5000 \<rparr>"
    using warmState_eq by blast
  have hit: "fst (getFromCache (getCacheKey acme ''drill'' (defaultPage None))
                    (nowAtLookup (offlineEnv 6000)) warmState) = Some 1"
    using getFromCache_live [OF en, of 6000]
    by (simp add: acme_key offlineEnv_def servingEnv_def cacheTimeout_def)
  from cache_hit_returns_copy [OF reachable_warmState hit] reachable_warmState hit
  show ?thesis by blast
qed

text \<open>
  C3, as stated, at the example site: the reference that the first (missing) search
  returns is the very reference that the cache entry holds, and the copy returned by the
  next (hitting) search refers to the same \<^verbatim>\<open>results\<close> array as the stored object.
\<close>

theorem miss_returns_stored_object:
  "fst (search acme ''drill'' None acmeEnv newScraper) = Inr 1 \<and>
   map_option entry_data (cache (snd (search acme ''drill'' None acmeEnv newScraper)) ''Acme:drill:1'')
     = Some 1 \<and>
   fst (search acme ''drill'' None (offlineEnv 6000) (snd (search acme ''drill'' None acmeEnv newScraper)))
     = Inr 2 \<and>
   map_option results
     (objects (snd (search acme ''drill'' None (offlineEnv 6000)
                      (snd (search acme ''drill'' None acmeEnv newScraper)))) 2) = Some 0 \<and>
   map_option results
     (objects (snd (search acme ''drill'' None (offlineEnv 6000)
                      (snd (search acme ''drill'' None acmeEnv newScraper)))) 1) = Some 0"
proof -
  have obj: "objects warmState 1 = Some \<lparr> site = ''Acme'', query = ''drill'', page = 1, totalResults = 1,
                          results = 0, cached = False, timestamp = ''2026-02-16T12:00:00.000Z'' \<rparr>"
    using warmState_eq by blast
  have nxt: "nextAddr warmState = 2" using warmState_eq by blast
  note second = search_hit [OF warm_hit obj]
  show ?thesis
    using acme_first_search warmState_eq
    by (simp add: second nxt warmState_def [symmetric])
qed

section \<open>Failures of \<^verbatim>\<open>search\<close>\<close>

lemma serving_fields:
  "launchFailure (servingEnv pl now) = None" "newPageFailure (servingEnv pl now) = None"
  "load (servingEnv pl now) u = pl" "nowAtLookup (servingEnv pl now) = now"
  "nowAtStore (servingEnv pl now) = now + 4000"
  by (simp_all add: servingEnv_def)

lemma new_miss: "fst (getFromCache k now newScraper) = None"
  by (simp add: getFromCache_def newScraper_def)

text \<open>
  C2, as stated, at the example site: a page that loads and evaluates without error but
  shows no card at all has zero qualifying cards, and \<^verbatim>\<open>search\<close> fails on it with the
  timeout of \<^verbatim>\<open>waitForSelector\<close>, wrapped as a scrape failure.
\<close>

theorem search_without_cards_fails:
  "gotoFailure emptyPage = None \<and> evaluateFailure emptyPage = None \<and>
   extractProducts (locationOrigin emptyPage) (document emptyPage) (selectors acme) = [] \<and>
   fst (search acme ''drill'' None (servingEnv emptyPage 1000) newScraper)
     = Inl ''Failed to scrape Acme: Waiting failed: 15000ms exceeded''"
proof -
  have pl: "gotoFailure emptyPage = None" "evaluateFailure emptyPage = None"
    "timeoutMessage emptyPage = ''Waiting failed: 15000ms exceeded''"
    "querySelector (document emptyPage) (sel_productCard (selectors acme)) = None"
    "extractProducts (locationOrigin emptyPage) (document emptyPage) (selectors acme) = []"
    by (simp_all add: emptyPage_def acmePage_def acme_fields acmeSelectors_def extractProducts_def
          querySelector_def querySelectorAll_def)
  have "scrape acme ''drill'' pg k (servingEnv emptyPage 1000) s
          = (Inl ''Waiting failed: 15000ms exceeded'', s)" for pg k s
    using scrape_wait_fails [of "servingEnv emptyPage 1000" acme "''drill''" pg k s]
    by (simp add: serving_fields pl)
  then have "search acme ''drill'' None (servingEnv emptyPage 1000) newScraper =
       (Inl (''Failed to scrape '' @ name acme @ '': '' @ ''Waiting failed: 15000ms exceeded''),
        newScraper\<lparr> cache := (cache newScraper)(getCacheKey acme ''drill'' (defaultPage None) := None),
           browser := True, openPages := openPages newScraper \<rparr>)"
    by (intro search_miss_fails new_miss) (simp_all add: serving_fields)
  then show ?thesis
    using pl by (simp add: acme_fields)
qed

text \<open>
  C2, as the code has it. A search that misses the cache, with browser and page context
  available, on a page that loads, evaluates, and shows at least one element for the
  \<^verbatim>\<open>productCard\<close> selector but none with both title and price: the call returns a
  result with \<^verbatim>\<open>totalResults\<close> 0, an empty \<^verbatim>\<open>results\<close> array and \<^verbatim>\<open>cached: false\<close>.
\<close>

theorem search_no_qualifying_card:
  assumes miss: "fst (getFromCache (getCacheKey cfg q (defaultPage pa)) (nowAtLookup e) s) = None"
    and started: "browser s \<or> launchFailure e = None" "newPageFailure e = None"
    and loaded: "gotoFailure (searchPage e cfg q) = None" "evaluateFailure (searchPage e cfg q) = None"
    and some_card: "querySelectorAll (document (searchPage e cfg q)) (sel_productCard (selectors cfg)) \<noteq> []"
    and none_qualifies:
      "\<forall>c \<in> set (querySelectorAll (document (searchPage e cfg q)) (sel_productCard (selectors cfg))).
         \<not> qualifies (extractCard (locationOrigin (searchPage e cfg q)) (selectors cfg) c)"
  shows "\<exists>a r. fst (search cfg q pa e s) = Inr a \<and>
               objects (snd (search cfg q pa e s)) a = Some r \<and>
               totalResults r = 0 \<and> arrays (snd (search cfg q pa e s)) (results r) = Some [] \<and>
               cached r = False"
proof -
  have card: "querySelector (document (searchPage e cfg q)) (sel_productCard (selectors cfg)) \<noteq> None"
    using some_card by (simp add: querySelector_def split: list.splits)
  have first: "fst (search cfg q pa e s) = Inr (nextAddr s + 1)"
    by (rule search_miss_ok [OF miss started loaded(1) card loaded(2)])
  have empty: "extractProducts (locationOrigin (searchPage e cfg q)) (document (searchPage e cfg q))
                 (selectors cfg) = []"
    using none_qualifies by (simp add: extractProducts_def filter_empty_conv)
  note shape = search_miss_succeeds [OF miss first]
  show ?thesis
    unfolding shape by (simp add: empty)
qed

theorem search_no_qualifying_card_witness:
  "fst (getFromCache (getCacheKey acme ''saw'' (defaultPage None)) (nowAtLookup (servingEnv titleOnlyPage 1000))
          newScraper) = None \<and>
   (browser newScraper \<or> launchFailure (servingEnv titleOnlyPage 1000) = None) \<and>
   newPageFailure (servingEnv titleOnlyPage 1000) = None \<and>
   gotoFailure (searchPage (servingEnv titleOnlyPage 1000) acme ''saw'') = None \<and>
   evaluateFailure (searchPage (servingEnv titleOnlyPage 1000) acme ''saw'') = None \<and>
   querySelectorAll (document (searchPage (servingEnv titleOnlyPage 1000) acme ''saw''))
      (sel_productCard (selectors acme)) = [titleOnlyCard] \<and>
   \<not> qualifies (extractCard (locationOrigin (searchPage (servingEnv titleOnlyPage 1000) acme ''saw''))
                  (selectors acme) titleOnlyCard) \<and>
   (\<exists>a r. fst (search acme ''saw'' None (servingEnv titleOnlyPage 1000) newScraper) = Inr a \<and>
          objects (snd (search acme ''saw'' None (servingEnv titleOnlyPage 1000) newScraper)) a = Some r \<and>
          totalResults r = 0 \<and>
          arrays (snd (search acme ''saw'' None (servingEnv titleOnlyPage 1000) newScraper)) (results r) = Some [] \<and>
          cached r = False)"
proof -
  let ?e = "servingEnv titleOnlyPage 1000"
  have pl: "gotoFailure titleOnlyPage = None" "evaluateFailure titleOnlyPage = None"
    "querySelectorAll (document titleOnlyPage) (sel_productCard (selectors acme)) = [titleOnlyCard]"
    by (simp_all add: titleOnlyPage_def acmePage_def acme_fields acmeSelectors_def querySelectorAll_def)
  have nq: "\<not> qualifies (extractCard (locationOrigin titleOnlyPage) (selectors acme) titleOnlyCard)"
    by (simp add: qualifies_def extractCard_def acme_fields acmeSelectors_def titleOnlyCard_def
          dom_defs Let_def)
  have h1: "querySelectorAll (document (searchPage ?e acme ''saw'')) (sel_productCard (selectors acme)) \<noteq> []"
    by (simp add: serving_fields pl)
  have h2: "\<forall>c \<in> set (querySelectorAll (document (searchPage ?e acme ''saw'')) (sel_productCard (selectors acme))).
         \<not> qualifies (extractCard (locationOrigin (searchPage ?e acme ''saw'')) (selectors acme) c)"
    using nq by (simp add: serving_fields pl)
  from search_no_qualifying_card [of acme "''saw''" None ?e newScraper, OF new_miss _ _ _ _ h1 h2]
  have "\<exists>a r. fst (search acme ''saw'' None ?e newScraper) = Inr a \<and>
          objects (snd (search acme ''saw'' None ?e newScraper)) a = Some r \<and>
          totalResults r = 0 \<and>
          arrays (snd (search acme ''saw'' None ?e newScraper)) (results r) = Some [] \<and>
          cached r = False"
    by (simp add: serving_fields pl)
  then show ?thesis
    using nq by (simp add: new_miss serving_fields pl)
qed

lemma scrape_fails:
  assumes "gotoFailure (searchPage e cfg q) = Some cause \<or>
           (gotoFailure (searchPage e cfg q) = None \<and>
            querySelector (document (searchPage e cfg q)) (sel_productCard (selectors cfg)) = None \<and>
            timeoutMessage (searchPage e cfg q) = cause) \<or>
           (gotoFailure (searchPage e cfg q) = None \<and>
            querySelector (document (searchPage e cfg q)) (sel_productCard (selectors cfg)) \<noteq> None \<and>
            evaluateFailure (searchPage e cfg q) = Some cause)"
  shows "scrape cfg q pg key e s = (Inl cause, s)"
  using assms
  by (elim disjE conjE)
     (simp_all add: scrape_goto_fails scrape_wait_fails scrape_evaluate_fails)

text \<open>
  C7, as the code has it. A search that misses the cache, with browser and page context
  available, whose navigation fails, or whose wait for a card times out, or whose in-page
  evaluation fails, with the message \<open>cause\<close>: the call ends in one error with the
  message \<^verbatim>\<open>Failed to scrape <site name>: <cause>\<close> and returns no result; no object and no
  array has been created; as many pages are open as before the call; and no cache entry
  has been created or modified: the cache is the one before the call without the key of
  the request, under which only an expired entry can have been removed (by the lookup),
  so that every lookup at a time not before that of the call answers as it would have on
  the cache before the call.
\<close>

theorem search_failure_isolated:
  assumes miss: "fst (getFromCache (getCacheKey cfg q (defaultPage pa)) (nowAtLookup e) s) = None"
    and started: "browser s \<or> launchFailure e = None" "newPageFailure e = None"
    and failure:
      "gotoFailure (searchPage e cfg q) = Some cause \<or>
       (gotoFailure (searchPage e cfg q) = None \<and>
        querySelector (document (searchPage e cfg q)) (sel_productCard (selectors cfg)) = None \<and>
        timeoutMessage (searchPage e cfg q) = cause) \<or>
       (gotoFailure (searchPage e cfg q) = None \<and>
        querySelector (document (searchPage e cfg q)) (sel_productCard (selectors cfg)) \<noteq> None \<and>
        evaluateFailure (searchPage e cfg q) = Some cause)"
  shows "fst (search cfg q pa e s) = Inl (''Failed to scrape '' @ name cfg @ '': '' @ cause) \<and>
         openPages (snd (search cfg q pa e s)) = openPages s \<and>
         objects (snd (search cfg q pa e s)) = objects s \<and>
         arrays (snd (search cfg q pa e s)) = arrays s \<and>
         nextAddr (snd (search cfg q pa e s)) = nextAddr s \<and>
         cache (snd (search cfg q pa e s)) = (cache s)(getCacheKey cfg q (defaultPage pa) := None) \<and>
         (\<forall>k en. cache (snd (search cfg q pa e s)) k = Some en \<longrightarrow> cache s k = Some en) \<and>
         (\<forall>k en. cache s k = Some en \<longrightarrow>
            cache (snd (search cfg q pa e s)) k = Some en \<or>
            (k = getCacheKey cfg q (defaultPage pa) \<and> cacheTimeout \<le> nowAtLookup e - entry_timestamp en)) \<and>
         (\<forall>k t. nowAtLookup e \<le> t \<longrightarrow>
            fst (getFromCache k t (snd (search cfg q pa e s))) = fst (getFromCache k t s))"
proof -
  note shape = search_miss_fails [OF miss started scrape_fails [OF failure]]
  have expired: "cacheTimeout \<le> nowAtLookup e - entry_timestamp en"
    if "cache s (getCacheKey cfg q (defaultPage pa)) = Some en" for en
    by (rule getFromCache_miss_expired [OF miss that])
  have same: "fst (getFromCache k t (snd (search cfg q pa e s))) = fst (getFromCache k t s)"
    if "nowAtLookup e \<le> t" for k t
    unfolding shape using expired that
    by (cases "cache s k") (auto simp: getFromCache_def)
  have rest: "fst (search cfg q pa e s) = Inl (''Failed to scrape '' @ name cfg @ '': '' @ cause) \<and>
         openPages (snd (search cfg q pa e s)) = openPages s \<and>
         objects (snd (search cfg q pa e s)) = objects s \<and>
         arrays (snd (search cfg q pa e s)) = arrays s \<and>
         nextAddr (snd (search cfg q pa e s)) = nextAddr s \<and>
         cache (snd (search cfg q pa e s)) = (cache s)(getCacheKey cfg q (defaultPage pa) := None) \<and>
         (\<forall>k en. cache (snd (search cfg q pa e s)) k = Some en \<longrightarrow> cache s k = Some en) \<and>
         (\<forall>k en. cache s k = Some en \<longrightarrow>
            cache (snd (search cfg q pa e s)) k = Some en \<or>
            (k = getCacheKey cfg q (defaultPage pa) \<and> cacheTimeout \<le> nowAtLookup e - entry_timestamp en))"
    unfolding shape using expired by (auto split: if_splits)
  from rest same show ?thesis by blast
qed

lemma warm_late_miss:
  "fst (getFromCache (getCacheKey acme ''drill'' (defaultPage None)) (nowAtLookup (offlineEnv 3605000)) warmState)
     = None"
proof -
  have en: "cache warmState ''Acme:drill:1'' = Some \<lparr> entry_data = 1, entry_timestamp = 5000 \<rparr>"
    using warmState_eq by blast
  show ?thesis
    by (simp add: getFromCache_def acme_key en offlineEnv_def serving_fields cacheTimeout_def)
qed

lemma offline_fields:
  "gotoFailure (searchPage (offlineEnv now) cfg q) = Some ''net::ERR_NAME_NOT_RESOLVED''"
  "launchFailure (offlineEnv now) = None" "newPageFailure (offlineEnv now) = None"
  by (simp_all add: offlineEnv_def serving_fields offlinePage_def)

theorem search_failure_isolated_witness:
  "fst (getFromCache (getCacheKey acme ''drill'' (defaultPage None)) (nowAtLookup (offlineEnv 3605000)) warmState)
     = None \<and>
   browser warmState \<and> newPageFailure (offlineEnv 3605000) = None \<and>
   gotoFailure (searchPage (offlineEnv 3605000) acme ''drill'') = Some ''net::ERR_NAME_NOT_RESOLVED'' \<and>
   fst (search acme ''drill'' None (offlineEnv 3605000) warmState)
     = Inl ''Failed to scrape Acme: net::ERR_NAME_NOT_RESOLVED'' \<and>
   openPages (snd (search acme ''drill'' None (offlineEnv 3605000) warmState)) = openPages warmState \<and>
   objects (snd (search acme ''drill'' None (offlineEnv 3605000) warmState)) = objects warmState \<and>
   arrays (snd (search acme ''drill'' None (offlineEnv 3605000) warmState)) = arrays warmState \<and>
   cache (snd (search acme ''drill'' None (offlineEnv 3605000) warmState))
     = (cache warmState)(''Acme:drill:1'' := None)"
proof -
  have b: "browser warmState" using warmState_eq by blast
  have f: "gotoFailure (searchPage (offlineEnv 3605000) acme ''drill'') = Some ''net::ERR_NAME_NOT_RESOLVED'' \<or>
       (gotoFailure (searchPage (offlineEnv 3605000) acme ''drill'') = None \<and>
        querySelector (document (searchPage (offlineEnv 3605000) acme ''drill'')) (sel_productCard (selectors acme)) = None \<and>
        timeoutMessage (searchPage (offlineEnv 3605000) acme ''drill'') = ''net::ERR_NAME_NOT_RESOLVED'') \<or>
       (gotoFailure (searchPage (offlineEnv 3605000) acme ''drill'') = None \<and>
        querySelector (document (searchPage (offlineEnv 3605000) acme ''drill'')) (sel_productCard (selectors acme)) \<noteq> None \<and>
        evaluateFailure (searchPage (offlineEnv 3605000) acme ''drill'') = Some ''net::ERR_NAME_NOT_RESOLVED'')"
    by (simp add: offline_fields)
  have st: "browser warmState \<or> launchFailure (offlineEnv 3605000) = None" using b by simp
  from search_failure_isolated [OF warm_late_miss st offline_fields(3) f]
  show ?thesis
    using b warm_late_miss by (simp add: offline_fields acme_fields acme_key)
qed

text \<open>
  C7, as stated, at the example site: the cache holds an entry for the request, stored at
  5000 ms; a search for the same request at 3605000 ms, with the host unreachable, fails,
  and afterwards the cache holds no entry under that key: it has changed.
\<close>

theorem failed_search_changes_cache:
  "cache warmState ''Acme:drill:1'' = Some \<lparr> entry_data = 1, entry_timestamp = 5000 \<rparr> \<and>
   fst (search acme ''drill'' None (offlineEnv 3605000) warmState)
     = Inl ''Failed to scrape Acme: net::ERR_NAME_NOT_RESOLVED'' \<and>
   cache (snd (search acme ''drill'' None (offlineEnv 3605000) warmState)) ''Acme:drill:1'' = None"
proof -
  have b: "browser warmState \<or> launchFailure (offlineEnv 3605000) = None" using warmState_eq by blast
  have en: "cache warmState ''Acme:drill:1'' = Some \<lparr> entry_data = 1, entry_timestamp = 5000 \<rparr>"
    using warmState_eq by blast
  note shape = search_miss_fails [OF warm_late_miss b offline_fields(3) scrape_goto_fails [OF offline_fields(1)]]
  show ?thesis
    unfolding shape using en by (simp add: acme_fields acme_key)
qed

section \<open>Images\<close>

lemma startsWith_includes: "startsWith s p \<Longrightarrow> includes_str s p"
  by (cases s) (auto simp: startsWith_def)

text \<open>
  C8, as stated, at a card whose image source is a real URL that mentions
  \<^verbatim>\<open>data:image\<close> in its query string: the source is present and is no placeholder, so
  the specification keeps it, but the code takes the \<^verbatim>\<open>data-src\<close> attribute.
\<close>

theorem image_fallback_on_real_url:
  "getAttribute queryStringCard ''img'' ''src''
     = Some ''https://cdn.acme.test/pliers.png?fallback=data:image/png'' \<and>
   \<not> isPlaceholder ''https://cdn.acme.test/pliers.png?fallback=data:image/png'' \<and>
   specImage queryStringCard ''img'' = Some ''https://cdn.acme.test/pliers.png?fallback=data:image/png'' \<and>
   imageOf queryStringCard ''img'' = Some ''https://cdn.acme.test/lazy/pliers.png''"
  by code_simp

text \<open>
  C8, as the code has it. The image of a card is the \<^verbatim>\<open>data-src\<close> attribute exactly when
  the \<^verbatim>\<open>src\<close> attribute is absent, empty, or contains \<^verbatim>\<open>data:image\<close> anywhere, and
  the \<^verbatim>\<open>src\<close> attribute otherwise. In particular a card whose \<^verbatim>\<open>src\<close> is a
  \<^verbatim>\<open>data:image\<close> placeholder yields its \<^verbatim>\<open>data-src\<close> value; and the code agrees with
  the specification whenever \<^verbatim>\<open>src\<close> is absent, or is not empty and mentions
  \<^verbatim>\<open>data:image\<close> at its start only or not at all. This is the image of the extracted
  product.
\<close>

theorem image_fallback:
  "image_url (extractCard origin sels c) = imageOf c (sel_image sels) \<and>
   imageOf c sel =
     (case getAttribute c sel ''src'' of
        None \<Rightarrow> getAttribute c sel ''data-src''
      | Some s \<Rightarrow> if s = [] \<or> includes_str s ''data:image''
                  then getAttribute c sel ''data-src'' else Some s) \<and>
   (\<forall>s. getAttribute c sel ''src'' = Some s \<and> isPlaceholder s \<longrightarrow>
        imageOf c sel = getAttribute c sel ''data-src'') \<and>
   (getAttribute c sel ''src'' = None \<longrightarrow> imageOf c sel = specImage c sel) \<and>
   (\<forall>s. getAttribute c sel ''src'' = Some s \<and> s \<noteq> [] \<and>
        (includes_str s ''data:image'' \<longrightarrow> isPlaceholder s) \<longrightarrow>
        imageOf c sel = specImage c sel)"
proof -
  have "includes_str s ''data:image''" if "isPlaceholder s" for s
    using that unfolding isPlaceholder_def by (rule startsWith_includes)
  then show ?thesis
    by (auto simp: imageOf_def specImage_def extractCard_def truthy_def Let_def split: option.splits)
qed

theorem image_fallback_witness:
  "getAttribute drillCard ''img'' ''src'' = Some ''data:image/gif;base64,R0lGODlhAQABAAAAACw='' \<and>
   isPlaceholder ''data:image/gif;base64,R0lGODlhAQABAAAAACw='' \<and>
   getAttribute drillCard ''img'' ''data-src'' = Some ''https://acme.test/img/drill.jpg'' \<and>
   imageOf drillCard ''img'' = Some ''https://acme.test/img/drill.jpg'' \<and>
   image_url (extractCard ''https://acme.test'' acmeSelectors drillCard)
     = Some ''https://acme.test/img/drill.jpg''"
proof -
  have src: "getAttribute drillCard ''img'' ''src'' = Some ''data:image/gif;base64,R0lGODlhAQABAAAAACw=''"
    and dsrc: "getAttribute drillCard ''img'' ''data-src'' = Some ''https://acme.test/img/drill.jpg''"
    and ph: "isPlaceholder ''data:image/gif;base64,R0lGODlhAQABAAAAACw=''"
    by (simp_all add: drillCard_def dom_defs isPlaceholder_def)
  have sel: "sel_image acmeSelectors = ''img''" by (simp add: acmeSelectors_def)
  note fact = image_fallback [of "''https://acme.test''" acmeSelectors drillCard "''img''"]
  have a: "image_url (extractCard ''https://acme.test'' acmeSelectors drillCard) = imageOf drillCard ''img''"
    using fact [THEN conjunct1] by (simp only: sel)
  have b: "imageOf drillCard ''img'' = getAttribute drillCard ''img'' ''data-src''"
    using fact [THEN conjunct2, THEN conjunct2, THEN conjunct1] src ph by blast
  from a b have "imageOf drillCard ''img'' = getAttribute drillCard ''img'' ''data-src''"
    and "image_url (extractCard ''https://acme.test'' acmeSelectors drillCard) = imageOf drillCard ''img''"
    by simp_all
  then show ?thesis using src dsrc ph by simp
qed

section \<open>The images of a detail page\<close>

lemma js_or_resolved:
  "(if truthy (js_or (srcProperty el) (attribute el ''data-src''))
    then js_or (srcProperty el) (attribute el ''data-src'') else None) = resolvedSource el"
  by (auto simp: js_or_def truthy_def resolvedSource_def split: option.splits list.splits)

lemma getAllImages_collect: "getAllImages doc sel = collectSources (querySelectorAll doc sel)"
proof -
  have "[s. Some s \<leftarrow> filter truthy (map (\<lambda>img. js_or (srcProperty img) (attribute img ''data-src'')) els)]
          = collectSources els" for els
  proof (induction els)
    case Nil
    show ?case by simp
  next
    case (Cons el els)
    show ?case
    proof (cases "truthy (js_or (srcProperty el) (attribute el ''data-src''))")
      case True
      with js_or_resolved [of el] obtain u where "js_or (srcProperty el) (attribute el ''data-src'') = Some u"
        "resolvedSource el = Some u"
        by (cases "js_or (srcProperty el) (attribute el ''data-src'')") (auto simp: truthy_def)
      with True Cons show ?thesis by simp
    next
      case False
      with js_or_resolved [of el] have "resolvedSource el = None" by simp
      with False Cons show ?thesis by simp
    qed
  qed
  then show ?thesis by (simp add: getAllImages_def)
qed

lemma collectSources_all:
  "\<forall>el \<in> set els. resolvedSource el \<noteq> None \<Longrightarrow> map Some (collectSources els) = map resolvedSource els"
  by (induction els) auto

lemma details_Inr:
  "fst (getProductDetails cfg u sels e s) = Inr d \<Longrightarrow>
   d = extractDetail cfg u sels (isoNow e) (document (load e u))"
  by (auto simp: getProductDetails_def init_def newPage_def Let_def
           split: option.splits if_splits prod.splits sum.splits)

text \<open>
  C9. When \<^verbatim>\<open>getProductDetails\<close> returns and an images selector is supplied, the
  \<^verbatim>\<open>images\<close> field is the sequence of the resolved sources (\<^verbatim>\<open>src\<close>, else
  \<^verbatim>\<open>data-src\<close>) of the elements that the selector matches, in document order, the
  elements that yield neither left out. When every matched element yields a source, there
  are as many images as elements, the i-th image being the source of the i-th element.
\<close>

theorem detail_images:
  assumes "fst (getProductDetails cfg u sels e s) = Inr d"
    and "dsel_images sels = Some sel" and "sel \<noteq> []"
  shows "d_images d = collectSources (querySelectorAll (document (load e u)) sel) \<and>
         ((\<forall>el \<in> set (querySelectorAll (document (load e u)) sel). resolvedSource el \<noteq> None) \<longrightarrow>
            length (d_images d) = length (querySelectorAll (document (load e u)) sel) \<and>
            (\<forall>i < length (d_images d).
               Some (d_images d ! i) = resolvedSource (querySelectorAll (document (load e u)) sel ! i)))"
proof -
  let ?els = "querySelectorAll (document (load e u)) sel"
  have imgs: "d_images d = collectSources ?els"
    using details_Inr [OF assms(1)] assms(2,3)
    by (simp add: extractDetail_def truthy_def getAllImages_collect)
  have "length (collectSources ?els) = length ?els \<and>
        (\<forall>i < length (collectSources ?els). Some (collectSources ?els ! i) = resolvedSource (?els ! i))"
    if "\<forall>el \<in> set ?els. resolvedSource el \<noteq> None"
  proof -
    note eq = collectSources_all [OF that]
    have len: "length (collectSources ?els) = length ?els"
      using arg_cong [OF eq, of length] by simp
    moreover have "Some (collectSources ?els ! i) = resolvedSource (?els ! i)"
      if "i < length (collectSources ?els)" for i
      using arg_cong [OF eq, of "\<lambda>xs. xs ! i"] that len by simp
    ultimately show ?thesis by blast
  qed
  with imgs show ?thesis by simp
qed

theorem detail_images_witness:
  "fst (getProductDetails acme ''https://acme.test/tools/p7X42AB'' gallerySelectors
          (servingEnv galleryPage 1000) newScraper)
     = Inr (extractDetail acme ''https://acme.test/tools/p7X42AB'' gallerySelectors
              ''2026-02-16T12:00:00.000Z'' galleryDocument) \<and>
   dsel_images gallerySelectors = Some ''.gallery img'' \<and>
   length (querySelectorAll galleryDocument ''.gallery img'') = 3 \<and>
   length (d_images (extractDetail acme ''https://acme.test/tools/p7X42AB'' gallerySelectors
               ''2026-02-16T12:00:00.000Z'' galleryDocument)) = 3 \<and>
   d_images (extractDetail acme ''https://acme.test/tools/p7X42AB'' gallerySelectors
               ''2026-02-16T12:00:00.000Z'' galleryDocument)
     = [''https://acme.test/img/front.jpg'', ''https://acme.test/img/side.jpg'',
        ''https://acme.test/img/back.jpg'']"
proof -
  let ?d = "extractDetail acme ''https://acme.test/tools/p7X42AB'' gallerySelectors
              ''2026-02-16T12:00:00.000Z'' galleryDocument"
  have run: "fst (getProductDetails acme ''https://acme.test/tools/p7X42AB'' gallerySelectors
                (servingEnv galleryPage 1000) newScraper) = Inr ?d"
    by (simp add: getProductDetails_def init_def newPage_def newScraper_def servingEnv_def
          galleryPage_def acmePage_def Let_def)
  have sel: "dsel_images gallerySelectors = Some ''.gallery img''"
    by (simp add: gallerySelectors_def)
  have els: "querySelectorAll galleryDocument ''.gallery img'' =
     [Element [] [(''src'', ''/img/front.jpg'')] (Some ''https://acme.test/img/front.jpg'') [],
      Element [] [(''data-src'', ''https://acme.test/img/side.jpg'')] (Some []) [],
      Element [] [(''src'', ''/img/back.jpg'')] (Some ''https://acme.test/img/back.jpg'') []]"
    by (simp add: galleryDocument_def querySelectorAll_def)
  have doc: "document (load (servingEnv galleryPage 1000) ''https://acme.test/tools/p7X42AB'') = galleryDocument"
    by (simp add: serving_fields galleryPage_def)
  from detail_images [OF run sel, unfolded doc, THEN conjunct1]
  have "d_images ?d = collectSources (querySelectorAll galleryDocument ''.gallery img'')"
    by simp
  then have "d_images ?d = [''https://acme.test/img/front.jpg'', ''https://acme.test/img/side.jpg'',
        ''https://acme.test/img/back.jpg'']"
    by (simp add: els resolvedSource_def attribute_def)
  moreover have all: "\<forall>el \<in> set (querySelectorAll galleryDocument ''.gallery img''). resolvedSource el \<noteq> None"
    by (simp add: els resolvedSource_def attribute_def)
  from detail_images [OF run sel, unfolded doc, THEN conjunct2] all
  have "length (d_images ?d) = length (querySelectorAll galleryDocument ''.gallery img'')"
    by simp
  ultimately show ?thesis using run sel by (simp add: els)
qed

section \<open>The cache key\<close>

lemma miss_then_hit:
  assumes miss: "fst (getFromCache (getCacheKey cfg q (defaultPage pa)) (nowAtLookup e1) s) = None"
    and first: "fst (search cfg q pa e1 s) = Inr a1"
    and soon: "nowAtLookup e2 - nowAtStore e1 < cacheTimeout"
    and same: "getCacheKey cfg' q' (defaultPage pa') = getCacheKey cfg q (defaultPage pa)"
  shows "\<exists>r1. objects (snd (search cfg q pa e1 s)) a1 = Some r1 \<and>
              site r1 = name cfg \<and> query r1 = q \<and> cached r1 = False \<and>
              search cfg' q' pa' e2 (snd (search cfg q pa e1 s)) =
                (Inr (nextAddr (snd (search cfg q pa e1 s))),
                 (snd (search cfg q pa e1 s))
                   \<lparr> objects := (objects (snd (search cfg q pa e1 s)))
                        (nextAddr (snd (search cfg q pa e1 s)) \<mapsto> r1\<lparr> cached := True \<rparr>),
                     nextAddr := nextAddr (snd (search cfg q pa e1 s)) + 1 \<rparr>)"
proof -
  let ?k = "getCacheKey cfg q (defaultPage pa)"
  let ?s1 = "snd (search cfg q pa e1 s)"
  note shape = search_miss_succeeds [OF miss first]
  have a1: "a1 = nextAddr s + 1" using first shape by simp
  obtain r1 where r1: "objects ?s1 a1 = Some r1" "cached r1 = False" "site r1 = name cfg" "query r1 = q"
    unfolding shape a1 by simp
  have entry: "cache ?s1 ?k = Some \<lparr> entry_data = a1, entry_timestamp = nowAtStore e1 \<rparr>"
    unfolding shape a1 by simp
  have hit: "fst (getFromCache (getCacheKey cfg' q' (defaultPage pa')) (nowAtLookup e2) ?s1) = Some a1"
    unfolding same using getFromCache_live [OF entry] soon by simp
  from search_hit [OF hit r1(1)] r1 show ?thesis by blast
qed

text \<open>
  C10. The key joins site name, query and page with colons and escapes nothing. The
  requests (\<^verbatim>\<open>a:b\<close>, \<^verbatim>\<open>c\<close>, page) and (\<^verbatim>\<open>a\<close>, \<^verbatim>\<open>b:c\<close>, page) differ and have the
  same key; and when a search for the first misses the cache and returns a result, a
  search for the second within the time to live is a hit: it returns the result of the
  first (site \<^verbatim>\<open>a:b\<close>, query \<^verbatim>\<open>c\<close>) with \<^verbatim>\<open>cached: true\<close>.
\<close>

theorem cache_key_collision:
  assumes "name cfgA = ''a:b''" and "name cfgB = ''a''"
  shows "(name cfgA, ''c'', pg) \<noteq> (name cfgB, ''b:c'', pg) \<and>
         getCacheKey cfgA ''c'' pg = getCacheKey cfgB ''b:c'' pg \<and>
         (\<forall>e1 e2 s a1.
            fst (getFromCache (getCacheKey cfgA ''c'' pg) (nowAtLookup e1) s) = None \<and>
            fst (search cfgA ''c'' (Some pg) e1 s) = Inr a1 \<and>
            nowAtLookup e2 - nowAtStore e1 < cacheTimeout \<longrightarrow>
            (\<exists>r1 a2. objects (snd (search cfgA ''c'' (Some pg) e1 s)) a1 = Some r1 \<and>
                     site r1 = ''a:b'' \<and> query r1 = ''c'' \<and>
                     fst (search cfgB ''b:c'' (Some pg) e2 (snd (search cfgA ''c'' (Some pg) e1 s))) = Inr a2 \<and>
                     objects (snd (search cfgB ''b:c'' (Some pg) e2 (snd (search cfgA ''c'' (Some pg) e1 s)))) a2
                       = Some (r1\<lparr> cached := True \<rparr>)))"
proof -
  have key: "getCacheKey cfgA ''c'' pg = getCacheKey cfgB ''b:c'' pg"
    using assms by (simp add: getCacheKey_def)
  have dp: "defaultPage (Some pg) = pg" by (simp add: defaultPage_def)
  have "\<exists>r1 a2. objects (snd (search cfgA ''c'' (Some pg) e1 s)) a1 = Some r1 \<and>
                     site r1 = ''a:b'' \<and> query r1 = ''c'' \<and>
                     fst (search cfgB ''b:c'' (Some pg) e2 (snd (search cfgA ''c'' (Some pg) e1 s))) = Inr a2 \<and>
                     objects (snd (search cfgB ''b:c'' (Some pg) e2 (snd (search cfgA ''c'' (Some pg) e1 s)))) a2
                       = Some (r1\<lparr> cached := True \<rparr>)"
    if miss: "fst (getFromCache (getCacheKey cfgA ''c'' pg) (nowAtLookup e1) s) = None"
      and first: "fst (search cfgA ''c'' (Some pg) e1 s) = Inr a1"
      and soon: "nowAtLookup e2 - nowAtStore e1 < cacheTimeout"
    for e1 e2 s a1
  proof -
    from miss_then_hit [of cfgA "''c''" "Some pg" e1 s a1 e2 cfgB "''b:c''" "Some pg"]
      miss first soon key
    obtain r1 where r1: "objects (snd (search cfgA ''c'' (Some pg) e1 s)) a1 = Some r1"
      "site r1 = name cfgA" "query r1 = ''c''"
      and second: "search cfgB ''b:c'' (Some pg) e2 (snd (search cfgA ''c'' (Some pg) e1 s)) =
                (Inr (nextAddr (snd (search cfgA ''c'' (Some pg) e1 s))),
                 (snd (search cfgA ''c'' (Some pg) e1 s))
                   \<lparr> objects := (objects (snd (search cfgA ''c'' (Some pg) e1 s)))
                        (nextAddr (snd (search cfgA ''c'' (Some pg) e1 s)) \<mapsto> r1\<lparr> cached := True \<rparr>),
                     nextAddr := nextAddr (snd (search cfgA ''c'' (Some pg) e1 s)) + 1 \<rparr>)"
      by (auto simp: dp)
    show ?thesis
      using r1 assms(1) by (simp add: second)
  qed
  then show ?thesis
    using assms key by auto
qed

theorem cache_key_collision_witness:
  "name siteAB = ''a:b'' \<and> name siteA = ''a'' \<and>
   (name siteAB, ''c'', 1::nat) \<noteq> (name siteA, ''b:c'', 1) \<and>
   getCacheKey siteAB ''c'' 1 = ''a:b:c:1'' \<and> getCacheKey siteA ''b:c'' 1 = ''a:b:c:1'' \<and>
   fst (getFromCache (getCacheKey siteAB ''c'' 1) (nowAtLookup (servingEnv acmePage 1000)) newScraper) = None \<and>
   fst (search siteAB ''c'' (Some 1) (servingEnv acmePage 1000) newScraper) = Inr 1 \<and>
   nowAtLookup (offlineEnv 6000) - nowAtStore (servingEnv acmePage 1000) < cacheTimeout \<and>
   (\<exists>r1 a2. objects (snd (search siteAB ''c'' (Some 1) (servingEnv acmePage 1000) newScraper)) 1 = Some r1 \<and>
            site r1 = ''a:b'' \<and> query r1 = ''c'' \<and>
            fst (search siteA ''b:c'' (Some 1) (offlineEnv 6000)
                   (snd (search siteAB ''c'' (Some 1) (servingEnv acmePage 1000) newScraper))) = Inr a2 \<and>
            objects (snd (search siteA ''b:c'' (Some 1) (offlineEnv 6000)
                      (snd (search  siteAB ''c'' (Some 1) (servingEnv acmePage 1000) newScraper)))) a2
              = Some (r1\<lparr> cached := True \<rparr>))"
proof -
  have nA: "name siteAB = ''a:b''" and nB: "name siteA = ''a''"
    and sel: "selectors siteAB = acmeSelectors"
    by (simp_all add: siteAB_def siteA_def acme_def)
  have keys: "getCacheKey siteAB ''c'' 1 = ''a:b:c:1''" "getCacheKey siteA ''b:c'' 1 = ''a:b:c:1''"
    by (simp_all add: getCacheKey_def nA nB showNat.simps)
  have card: "querySelector (document acmePage) (sel_productCard acmeSelectors) \<noteq> None"
    by (simp add: acmePage_def acmeDocument_def acmeSelectors_def querySelector_def querySelectorAll_def)
  have first: "fst (search siteAB ''c'' (Some 1) (servingEnv acmePage 1000) newScraper) = Inr 1"
    using search_miss_ok [of siteAB "''c''" "Some 1" "servingEnv acmePage 1000" newScraper, OF new_miss]
      card
    by (simp add: serving_fields sel acmePage_def newScraper_def)
  have soon: "nowAtLookup (offlineEnv 6000) - nowAtStore (servingEnv acmePage 1000) < cacheTimeout"
    by (simp add: offlineEnv_def serving_fields cacheTimeout_def)
  note fact = cache_key_collision [OF nA nB, of 1]
  from fact [THEN conjunct2, THEN conjunct2] new_miss first soon
  have "\<exists>r1 a2. objects (snd (search siteAB ''c'' (Some 1) (servingEnv acmePage 1000) newScraper)) 1 = Some r1 \<and>
            site r1 = ''a:b'' \<and> query r1 = ''c'' \<and>
            fst (search siteA ''b:c'' (Some 1) (offlineEnv 6000)
                   (snd (search siteAB ''c'' (Some 1) (servingEnv acmePage 1000) newScraper))) = Inr a2 \<and>
            objects (snd (search siteA ''b:c'' (Some 1) (offlineEnv 6000)
                      (snd (search  siteAB ''c'' (Some 1) (servingEnv acmePage 1000) newScraper)))) a2
              = Some (r1\<lparr> cached := True \<rparr>)"
    by blast
  then show ?thesis
    using nA nB keys first soon new_miss by simp
qed

end
